theory Spec2Isabelle
  imports Complex_Main "HOL-Library.Sublist" "HOL-Library.AList" "HOL-Library.Multiset"
begin

section \<open>Python primitives used by the trend workflow\<close>

text \<open>
  Strings are lists of \<^typ>\<open>char\<close>, read as the code points below 256 (Latin-1): the
  range in which \<open>str.lower\<close>, \<open>str.isdigit\<close>, \<open>str.strip\<close> and the regular expression
  class \<open>\d\<close> are written out below. Python floats are modelled by \<^typ>\<open>rat\<close>: sums,
  means and comparisons are the exact ones, rounding is left out.
\<close>

datatype py_error = ValueError | IndexError | OverflowError | EOFError | ServiceError string

definition py_lower_char :: "char \<Rightarrow> char" where
  "py_lower_char c =
     (let n = (of_char c :: nat)
      in if (65 \<le> n \<and> n \<le> 90) \<or> (192 \<le> n \<and> n \<le> 222 \<and> n \<noteq> 215)
         then char_of (n + 32) else c)"

definition py_lower :: "string \<Rightarrow> string" where
  "py_lower s = map py_lower_char s"

definition py_isspace :: "char \<Rightarrow> bool" where
  "py_isspace c =
     (let n = (of_char c :: nat)
      in (9 \<le> n \<and> n \<le> 13) \<or> (28 \<le> n \<and> n \<le> 32) \<or> n = 133 \<or> n = 160)"

definition strip :: "string \<Rightarrow> string" where
  "strip s = rev (dropWhile py_isspace (rev (dropWhile py_isspace s)))"

definition is_decimal :: "char \<Rightarrow> bool" where
  "is_decimal c = (let n = (of_char c :: nat) in 48 \<le> n \<and> n \<le> 57)"

text \<open>
  \<open>str.isdigit\<close> accepts the decimal digits and also the superscript digits U+00B2,
  U+00B3 and U+00B9, which \<open>int\<close> refuses.
\<close>

definition isdigit_char :: "char \<Rightarrow> bool" where
  "isdigit_char c = (is_decimal c \<or> (of_char c :: nat) \<in> {178, 179, 185})"

definition isdigit :: "string \<Rightarrow> bool" where
  "isdigit s = (s \<noteq> [] \<and> list_all isdigit_char s)"

definition digit_value :: "char \<Rightarrow> nat" where
  "digit_value c = of_char c - 48"

definition decimal_value :: "string \<Rightarrow> nat" where
  "decimal_value s = foldl (\<lambda>a c. 10 * a + digit_value c) 0 s"

text \<open>
  \<open>int(s)\<close> on a string of digit characters, the only strings \<open>main\<close> passes to it: the
  value when every character is a decimal digit, \<open>ValueError\<close> otherwise.
\<close>

definition py_int :: "string \<Rightarrow> py_error + int" where
  "py_int s =
     (if s \<noteq> [] \<and> list_all is_decimal s then Inr (int (decimal_value s)) else Inl ValueError)"

fun digits_of :: "nat \<Rightarrow> string" where
  "digits_of n =
     (if n < 10 then [char_of (48 + n)]
      else digits_of (n div 10) @ [char_of (48 + n mod 10)])"

declare digits_of.simps [simp del]

definition py_str_int :: "int \<Rightarrow> string" where
  "py_str_int i = (if i < 0 then CHR ''-'' # digits_of (nat (- i)) else digits_of (nat i))"

section \<open>Configuration\<close>

definition CATEGORIES :: "(string \<times> string list) list" where
  "CATEGORIES =
     [(''Social Media Marketing'',
         [''social media'', ''instagram'', ''tiktok'', ''facebook'', ''twitter'', ''linkedin'',
          ''influencer'']),
      (''Content Marketing'',
         [''content'', ''blog'', ''video'', ''podcast'', ''storytelling'', ''copywriting'']),
      (''SEO & SEM'',
         [''seo'', ''sem'', ''search engine'', ''google'', ''keywords'', ''backlinks'', ''ranking'']),
      (''Email Marketing'', [''email'', ''newsletter'', ''automation'', ''drip campaign'']),
      (''Analytics & Data'',
         [''analytics'', ''data'', ''metrics'', ''KPI'', ''ROI'', ''tracking'', ''insights'']),
      (''Emerging Tech'',
         [''AI'', ''chatbot'', ''automation'', ''machine learning'', ''AR'', ''VR'', ''metaverse''])]"

section \<open>TrendCategorizer\<close>

text \<open>
  The category map is a Python dict, kept here as the list of its items in declaration
  order. \<open>category_scores\<close> is the dict the loop of \<open>categorize\<close> fills: assignment keeps
  the position of a key already present and appends a new one, which is
  \<^const>\<open>AList.update\<close>. \<open>max_from\<close> is \<open>max(category_scores, key=category_scores.get)\<close>:
  it walks the items in order and replaces its candidate only by a strictly greater one.
\<close>

definition trigger_score :: "string list \<Rightarrow> string \<Rightarrow> nat" where
  "trigger_score keywords keyword_lower =
     length (filter (\<lambda>kw. sublist (py_lower kw) keyword_lower) keywords)"

fun category_scores ::
  "(string \<times> string list) list \<Rightarrow> string \<Rightarrow> (string \<times> nat) list \<Rightarrow> (string \<times> nat) list" where
  "category_scores [] keyword_lower acc = acc"
| "category_scores ((category, keywords) # rest) keyword_lower acc =
     (let score = trigger_score keywords keyword_lower
      in category_scores rest keyword_lower
           (if score > 0 then AList.update category score acc else acc))"

fun max_from :: "(string \<times> nat) \<Rightarrow> (string \<times> nat) list \<Rightarrow> string" where
  "max_from best [] = fst best"
| "max_from best (p # ps) = max_from (if snd best < snd p then p else best) ps"

definition categorize :: "(string \<times> string list) list \<Rightarrow> string \<Rightarrow> string" where
  "categorize categories keyword =
     (case category_scores categories (py_lower keyword) [] of
        [] \<Rightarrow> ''General Marketing''
      | p # ps \<Rightarrow> max_from p ps)"

section \<open>SentimentAnalyzer\<close>

text \<open>
  The hosted model is a parameter \<open>generate_content\<close>: given the prompt it raises
  (\<open>Inl\<close>) or returns a response, and reading \<open>response.text\<close> raises or gives the text.
  \<open>match_number\<close> matches the pattern \<open>-?\d+\.?\d*\<close> at the head of a string,
  \<open>first_number\<close> is \<open>re.findall(pattern, s)[0]\<close> (\<open>None\<close> where the list is empty and
  the index raises), \<open>py_float\<close> reads such a token.
\<close>

type_synonym response = "py_error + string"

definition sentiment_prompt :: "string \<Rightarrow> string" where
  "sentiment_prompt text =
     ''Analyze the sentiment of the following text and provide a sentiment score between -1 (very negative) and 1 (very positive).''
     @ [CHR 0x0A] @ ''Return ONLY a number between -1 and 1, nothing else.''
     @ [CHR 0x0A, CHR 0x0A] @ ''Text: '' @ take 500 text"

definition match_number :: "string \<Rightarrow> string option" where
  "match_number s =
     (let sign = (case s of [] \<Rightarrow> [] | c # _ \<Rightarrow> if c = CHR ''-'' then [c] else []);
          r = drop (length sign) s;
          ds = takeWhile is_decimal r;
          r' = dropWhile is_decimal r
      in if ds = [] then None
         else (case r' of
                 [] \<Rightarrow> Some (sign @ ds)
               | c # r'' \<Rightarrow>
                   if c = CHR ''.'' then Some (sign @ ds @ [c] @ takeWhile is_decimal r'')
                   else Some (sign @ ds)))"

fun first_number :: "string \<Rightarrow> string option" where
  "first_number [] = None"
| "first_number (c # cs) =
     (case match_number (c # cs) of Some m \<Rightarrow> Some m | None \<Rightarrow> first_number cs)"

definition py_float :: "string \<Rightarrow> py_error + rat" where
  "py_float tok =
     (let neg = (tok \<noteq> [] \<and> hd tok = CHR ''-'');
          r = (if neg then tl tok else tok);
          ip = takeWhile is_decimal r;
          r' = dropWhile is_decimal r;
          fp = (case r' of [] \<Rightarrow> [] | c # r'' \<Rightarrow> r'');
          ok = (ip \<noteq> [] \<and> (r' = [] \<or> hd r' = CHR ''.'') \<and> list_all is_decimal fp);
          v = of_nat (decimal_value ip) + of_nat (decimal_value fp) / 10 ^ length fp
      in if ok then Inr (if neg then - v else v) else Inl ValueError)"

definition analyze_sentiment_try :: "(string \<Rightarrow> py_error + response) \<Rightarrow> string \<Rightarrow> py_error + rat" where
  "analyze_sentiment_try generate_content text =
     (case generate_content (sentiment_prompt text) of
        Inl e \<Rightarrow> Inl e
      | Inr response \<Rightarrow>
          (case response of
             Inl e \<Rightarrow> Inl e
           | Inr response_text \<Rightarrow>
               (case first_number (strip response_text) of
                  None \<Rightarrow> Inl IndexError
                | Some tok \<Rightarrow>
                    (case py_float tok of
                       Inl e \<Rightarrow> Inl e
                     | Inr score \<Rightarrow> Inr (max (- 1) (min 1 score))))))"

definition analyze_sentiment :: "(string \<Rightarrow> py_error + response) \<Rightarrow> string \<Rightarrow> py_error + rat" where
  "analyze_sentiment generate_content text =
     (case analyze_sentiment_try generate_content text of
        Inl e \<Rightarrow> Inr 0
      | Inr score \<Rightarrow> Inr score)"

section \<open>The store\<close>

text \<open>
  A timestamp is a calendar date and the second within the day, as a Python
  \<open>datetime\<close> and as the text \<open>YYYY-MM-DD HH:MM:SS\<close> that SQLite stores. A row of the
  table \<open>trends\<close> is a \<open>trend_row\<close>.
\<close>

record timestamp =
  ts_year :: nat
  ts_month :: nat
  ts_day :: nat
  secs :: nat

record trend_row =
  r_keyword :: string
  r_platform :: string
  r_category :: string
  r_volume :: int
  r_sentiment_score :: rat
  r_engagement_score :: rat
  r_timestamp :: timestamp
  r_metadata :: "(string \<times> string) list"

subsection \<open>Dates as Python and SQLite compute and write them\<close>

text \<open>
  The proleptic Gregorian ordinal of a date and back, as the \<open>datetime\<close> module
  computes them (\<open>_ymd2ord\<close>, \<open>_ord2ymd\<close>, with the tables \<open>_DAYS_IN_MONTH\<close> and
  \<open>_DAYS_BEFORE_MONTH\<close>).
\<close>

definition is_leap :: "int \<Rightarrow> bool" where
  "is_leap year = (year mod 4 = 0 \<and> (year mod 100 \<noteq> 0 \<or> year mod 400 = 0))"

definition days_before_year :: "int \<Rightarrow> int" where
  "days_before_year year = (let y = year - 1 in y * 365 + y div 4 - y div 100 + y div 400)"

definition DAYS_IN_MONTH :: "int \<Rightarrow> int" where
  "DAYS_IN_MONTH month =
     (if month = 2 then 28
      else if month = 4 \<or> month = 6 \<or> month = 9 \<or> month = 11 then 30
      else 31)"

definition DAYS_BEFORE_MONTH :: "int \<Rightarrow> int" where
  "DAYS_BEFORE_MONTH month =
     (if month = 1 then 0 else if month = 2 then 31 else if month = 3 then 59
      else if month = 4 then 90 else if month = 5 then 120 else if month = 6 then 151
      else if month = 7 then 181 else if month = 8 then 212 else if month = 9 then 243
      else if month = 10 then 273 else if month = 11 then 304 else 334)"

definition ymd2ord :: "int \<Rightarrow> int \<Rightarrow> int \<Rightarrow> int" where
  "ymd2ord year month mday =
     days_before_year year
       + (DAYS_BEFORE_MONTH month + (if 2 < month \<and> is_leap year then 1 else 0)) + mday"

definition month_day :: "bool \<Rightarrow> int \<Rightarrow> int \<times> int" where
  "month_day leapyear n =
     (let month = (n + 50) div 32;
          preceding = DAYS_BEFORE_MONTH month + (if 2 < month \<and> leapyear then 1 else 0)
      in if n < preceding
         then (month - 1,
               n - (preceding
                      - (DAYS_IN_MONTH (month - 1)
                           + (if month - 1 = 2 \<and> leapyear then 1 else 0))) + 1)
         else (month, n - preceding + 1))"

definition ord2ymd :: "int \<Rightarrow> int \<times> int \<times> int" where
  "ord2ymd ordinal =
     (let a = ordinal - 1;
          n400 = a div 146097; b = a mod 146097;
          n100 = b div 36524; c = b mod 36524;
          n4 = c div 1461; d = c mod 1461;
          n1 = d div 365; n = d mod 365;
          year = n400 * 400 + 1 + n100 * 100 + n4 * 4 + n1
      in if n1 = 4 \<or> n100 = 4 then (year - 1, 12, 31)
         else (case month_day (n1 = 3 \<and> (n4 \<noteq> 24 \<or> n100 = 3)) n of
                 (month, mday) \<Rightarrow> (year, month, mday)))"

text \<open>
  \<open>datetime.now() - timedelta(days=days)\<close>: \<open>timedelta\<close> raises \<open>OverflowError\<close> beyond
  999999999 days, and so does the subtraction when the result leaves the years 1 to
  9999 (ordinals 1 to 3652059); the time of day is kept.
\<close>

definition threshold_datetime :: "timestamp \<Rightarrow> int \<Rightarrow> py_error + timestamp" where
  "threshold_datetime now days =
     (if \<bar>days\<bar> > 999999999 then Inl OverflowError
      else let n = ymd2ord (int (ts_year now)) (int (ts_month now)) (int (ts_day now)) - days
           in if n < 1 \<or> 3652059 < n then Inl OverflowError
              else (case ord2ymd n of
                      (y, m, d) \<Rightarrow>
                        Inr \<lparr>ts_year = nat y, ts_month = nat m, ts_day = nat d,
                             secs = secs now\<rparr>))"

text \<open>
  The two date texts the queries compare. \<open>strftime('%Y-%m-%d')\<close> writes the year as
  the C library does, without leading zeros (the year 931 as \<open>931\<close>), the month and the
  day on two digits. SQLite's \<open>DATE(timestamp)\<close> writes the year on four digits. SQLite
  compares the two texts character by character (\<open>str_less\<close>).
\<close>

fun pad_digits :: "nat \<Rightarrow> nat \<Rightarrow> string" where
  "pad_digits w n =
     (if w = 0 then [] else pad_digits (w - 1) (n div 10) @ [char_of (48 + n mod 10)])"

declare pad_digits.simps [simp del]

definition strftime_date :: "timestamp \<Rightarrow> string" where
  "strftime_date t =
     digits_of (ts_year t) @ ''-'' @ pad_digits 2 (ts_month t) @ ''-'' @ pad_digits 2 (ts_day t)"

definition sqlite_date :: "timestamp \<Rightarrow> string" where
  "sqlite_date t =
     pad_digits 4 (ts_year t) @ ''-'' @ pad_digits 2 (ts_month t) @ ''-''
       @ pad_digits 2 (ts_day t)"

fun str_less :: "string \<Rightarrow> string \<Rightarrow> bool" where
  "str_less [] [] = False"
| "str_less [] (y # ys) = True"
| "str_less (x # xs) [] = False"
| "str_less (x # xs) (y # ys) =
     ((of_char x :: nat) < of_char y \<or> (x = y \<and> str_less xs ys))"

definition date_threshold :: "timestamp \<Rightarrow> int \<Rightarrow> py_error + string" where
  "date_threshold now days =
     (case threshold_datetime now days of
        Inl e \<Rightarrow> Inl e
      | Inr t \<Rightarrow> Inr (strftime_date t))"

text \<open>
  The calendar order of two dates, and the dates a stored timestamp can hold.
\<close>

definition date_before :: "timestamp \<Rightarrow> timestamp \<Rightarrow> bool" where
  "date_before a b =
     (ts_year a < ts_year b \<or>
      (ts_year a = ts_year b \<and>
       (ts_month a < ts_month b \<or> (ts_month a = ts_month b \<and> ts_day a < ts_day b))))"

definition valid_date :: "timestamp \<Rightarrow> bool" where
  "valid_date t =
     (ts_year t \<le> 9999 \<and> 1 \<le> ts_month t \<and> ts_month t \<le> 12 \<and> 1 \<le> ts_day t \<and> ts_day t \<le> 31)"

text \<open>
  \<open>ORDER BY timestamp\<close> compares the stored texts, which have one width: the order is
  that of the fields.
\<close>

definition ts_key :: "timestamp \<Rightarrow> int" where
  "ts_key t =
     ((int (ts_year t) * 100 + int (ts_month t)) * 100 + int (ts_day t)) * 86400 + int (secs t)"

definition combined :: "trend_row \<Rightarrow> rat" where
  "combined r = of_int (r_volume r) + r_engagement_score r"

text \<open>
  \<open>ORDER BY e DESC\<close> is a sort on the negated key; SQL leaves the order of equal keys
  open, the model keeps the table order among them. \<open>LIMIT n\<close> keeps the first \<open>n\<close>
  rows, all of them when \<open>n\<close> is negative; an integer outside 64 bits cannot be bound
  to the statement.
\<close>

definition sql_limit :: "int \<Rightarrow> 'a list \<Rightarrow> 'a list" where
  "sql_limit n rows = (if n < 0 then rows else take (nat n) rows)"

text \<open>
  A trend as the collectors build it is a dict in which only \<open>keyword\<close> and \<open>platform\<close>
  are always present. \<open>save_trend\<close> inserts it with the defaults of its \<open>get\<close> calls; the
  column default \<open>CURRENT_TIMESTAMP\<close> is the argument \<open>now\<close>.
\<close>

record trend =
  keyword :: string
  platform :: string
  category :: "string option"
  volume :: "int option"
  sentiment_score :: "rat option"
  engagement_score :: "rat option"
  metadata :: "(string \<times> string) list"

definition save_trend :: "timestamp \<Rightarrow> trend_row list \<Rightarrow> trend \<Rightarrow> trend_row list" where
  "save_trend now db trend_data =
     db @ [\<lparr>r_keyword = keyword trend_data,
            r_platform = platform trend_data,
            r_category = (case category trend_data of None \<Rightarrow> ''Uncategorized'' | Some c \<Rightarrow> c),
            r_volume = (case volume trend_data of None \<Rightarrow> 0 | Some v \<Rightarrow> v),
            r_sentiment_score = (case sentiment_score trend_data of None \<Rightarrow> 0 | Some s \<Rightarrow> s),
            r_engagement_score = (case engagement_score trend_data of None \<Rightarrow> 0 | Some e \<Rightarrow> e),
            r_timestamp = now,
            r_metadata = metadata trend_data\<rparr>]"

definition get_historical_trends :: "timestamp \<Rightarrow> int \<Rightarrow> trend_row list \<Rightarrow> py_error + trend_row list" where
  "get_historical_trends now days db =
     (case date_threshold now days of
        Inl e \<Rightarrow> Inl e
      | Inr thr \<Rightarrow>
          Inr (sort_key (\<lambda>r. - ts_key (r_timestamp r))
                 (filter (\<lambda>r. \<not> str_less (sqlite_date (r_timestamp r)) thr) db)))"

section \<open>DatabaseUtils\<close>

definition view_recent_trends ::
  "timestamp \<Rightarrow> int \<Rightarrow> int \<Rightarrow> trend_row list \<Rightarrow> py_error + trend_row list" where
  "view_recent_trends now days limit db =
     (case date_threshold now days of
        Inl e \<Rightarrow> Inl e
      | Inr thr \<Rightarrow>
          if limit < - (2 ^ 63) \<or> 2 ^ 63 \<le> limit then Inl OverflowError
          else Inr (sql_limit limit
                      (sort_key (\<lambda>r. - combined r)
                         (filter (\<lambda>r. \<not> str_less (sqlite_date (r_timestamp r)) thr) db))))"

text \<open>
  \<open>export_to_csv\<close>: the rows selected, and the text written to the file. Numbers and
  timestamps are written by \<open>str\<close>; \<open>str\<close> of a float and the stored timestamp text are
  parameters of the model.
\<close>

definition export_rows :: "timestamp \<Rightarrow> int \<Rightarrow> trend_row list \<Rightarrow> py_error + trend_row list" where
  "export_rows now days db =
     (case date_threshold now days of
        Inl e \<Rightarrow> Inl e
      | Inr thr \<Rightarrow>
          Inr (sort_key (\<lambda>r. - ts_key (r_timestamp r))
                 (filter (\<lambda>r. \<not> str_less (sqlite_date (r_timestamp r)) thr) db)))"

definition replace_commas :: "string \<Rightarrow> string" where
  "replace_commas s = map (\<lambda>c. if c = CHR '','' then CHR '';'' else c) s"

definition csv_header :: string where
  "csv_header =
     ''Keyword,Platform,Category,Volume,Sentiment Score,Engagement Score,Timestamp'' @ [CHR 0x0A]"

definition csv_line :: "(rat \<Rightarrow> string) \<Rightarrow> (timestamp \<Rightarrow> string) \<Rightarrow> trend_row \<Rightarrow> string" where
  "csv_line str_float str_ts row =
     (let keyword = replace_commas (r_keyword row)
      in [CHR 0x22] @ keyword @ [CHR 0x22] @ '','' @ r_platform row @ '','' @ r_category row
         @ '','' @ py_str_int (r_volume row) @ '','' @ str_float (r_sentiment_score row)
         @ '','' @ str_float (r_engagement_score row) @ '','' @ str_ts (r_timestamp row)
         @ [CHR 0x0A])"

definition csv_text :: "(rat \<Rightarrow> string) \<Rightarrow> (timestamp \<Rightarrow> string) \<Rightarrow> trend_row list \<Rightarrow> string" where
  "csv_text str_float str_ts rows = csv_header @ concat (map (csv_line str_float str_ts) rows)"

definition export_to_csv ::
  "(rat \<Rightarrow> string) \<Rightarrow> (timestamp \<Rightarrow> string) \<Rightarrow> timestamp \<Rightarrow> int \<Rightarrow> trend_row list \<Rightarrow> py_error + string" where
  "export_to_csv str_float str_ts now days db =
     (case export_rows now days db of
        Inl e \<Rightarrow> Inl e
      | Inr rows \<Rightarrow> Inr (csv_text str_float str_ts rows))"

text \<open>
  \<open>clear_old_data\<close> reads the console through \<open>input()\<close>: the lines still to come are
  the list \<open>inputs\<close>. The result holds the table as the call leaves it, the lines
  left, and the exception the call raised, if any.
\<close>

record purge_result =
  table :: "trend_row list"
  inputs_left :: "string list"
  raised :: "py_error option"

definition clear_old_data ::
  "timestamp \<Rightarrow> int \<Rightarrow> string list \<Rightarrow> trend_row list \<Rightarrow> purge_result" where
  "clear_old_data now days inputs db =
     (case date_threshold now days of
        Inl e \<Rightarrow> \<lparr>table = db, inputs_left = inputs, raised = Some e\<rparr>
      | Inr thr \<Rightarrow>
          (let count = length (filter (\<lambda>r. str_less (sqlite_date (r_timestamp r)) thr) db)
           in if count = 0 then \<lparr>table = db, inputs_left = inputs, raised = None\<rparr>
              else (case inputs of
                      [] \<Rightarrow> \<lparr>table = db, inputs_left = [], raised = Some EOFError\<rparr>
                    | confirm # rest \<Rightarrow>
                        if py_lower confirm = ''yes''
                        then \<lparr>table = filter (\<lambda>r. \<not> str_less (sqlite_date (r_timestamp r)) thr) db,
                              inputs_left = rest, raised = None\<rparr>
                        else \<lparr>table = db, inputs_left = rest, raised = None\<rparr>)))"

subsection \<open>The menu of \<open>main\<close>\<close>

datatype action =
    ViewRecentTrends int int
  | GetStatistics
  | SearchTrends string
  | SearchSkipped
  | GetTrendingKeywords int int
  | ExportToCsv string int
  | ClearOldData int
  | BackupDatabase "string option"
  | ExitMenu
  | InvalidChoice

text \<open>\<open>input(...).strip()\<close> followed by \<open>int(x) if x.isdigit() else default\<close>.\<close>

definition read_number :: "int \<Rightarrow> string \<Rightarrow> py_error + int" where
  "read_number dflt line = (let x = strip line in if isdigit x then py_int x else Inr dflt)"

text \<open>
  One pass of the loop of \<open>main\<close> up to the call it makes: the choice and the parameters
  are read from the lines still to come; the result is the call and the lines left.
\<close>

definition two_numbers ::
  "(int \<Rightarrow> int \<Rightarrow> action) \<Rightarrow> int \<Rightarrow> int \<Rightarrow> string list \<Rightarrow> py_error + (action \<times> string list)" where
  "two_numbers call d1 d2 inputs =
     (case inputs of
        [] \<Rightarrow> Inl EOFError
      | l1 # rest \<Rightarrow>
          (case read_number d1 l1 of
             Inl e \<Rightarrow> Inl e
           | Inr a \<Rightarrow>
               (case rest of
                  [] \<Rightarrow> Inl EOFError
                | l2 # rest' \<Rightarrow>
                    (case read_number d2 l2 of
                       Inl e \<Rightarrow> Inl e
                     | Inr b \<Rightarrow> Inr (call a b, rest')))))"

definition menu_choice :: "string list \<Rightarrow> py_error + (action \<times> string list)" where
  "menu_choice inputs =
     (case inputs of
        [] \<Rightarrow> Inl EOFError
      | line # rest \<Rightarrow>
          (let choice = strip line
           in if choice = ''1'' then two_numbers ViewRecentTrends 7 50 rest
              else if choice = ''2'' then Inr (GetStatistics, rest)
              else if choice = ''3'' then
                (case rest of
                   [] \<Rightarrow> Inl EOFError
                 | l # rest' \<Rightarrow>
                     Inr (if strip l \<noteq> [] then SearchTrends (strip l) else SearchSkipped, rest'))
              else if choice = ''4'' then two_numbers GetTrendingKeywords 7 20 rest
              else if choice = ''5'' then
                (case rest of
                   [] \<Rightarrow> Inl EOFError
                 | l # rest' \<Rightarrow>
                     (let output_file = (if strip l \<noteq> [] then strip l else ''trends_export.csv'')
                      in (case rest' of
                            [] \<Rightarrow> Inl EOFError
                          | l2 # rest'' \<Rightarrow>
                              (case read_number 30 l2 of
                                 Inl e \<Rightarrow> Inl e
                               | Inr days \<Rightarrow> Inr (ExportToCsv output_file days, rest'')))))
              else if choice = ''6'' then
                (case rest of
                   [] \<Rightarrow> Inl EOFError
                 | l # rest' \<Rightarrow>
                     (case read_number 90 l of
                        Inl e \<Rightarrow> Inl e
                      | Inr days \<Rightarrow> Inr (ClearOldData days, rest')))
              else if choice = ''7'' then
                (case rest of
                   [] \<Rightarrow> Inl EOFError
                 | l # rest' \<Rightarrow>
                     Inr (BackupDatabase (if strip l \<noteq> [] then Some (strip l) else None), rest'))
              else if choice = ''8'' then Inr (ExitMenu, rest)
              else Inr (InvalidChoice, rest)))"

subsection \<open>Reading the exported file back\<close>

text \<open>
  The reader of the exported text is the one of Python's \<open>csv\<close> module in its default
  dialect: comma as delimiter, a field that starts with a double quote runs to the next
  single double quote, two double quotes inside it stand for one, and a line break
  outside a quoted field ends the record.
\<close>

datatype csv_state = START_FIELD | IN_FIELD | IN_QUOTED_FIELD | QUOTE_IN_QUOTED_FIELD

fun csv_reader_from :: "csv_state \<Rightarrow> string \<Rightarrow> string list \<Rightarrow> string \<Rightarrow> string list list" where
  "csv_reader_from st field row [] =
     (if st = START_FIELD \<and> row = [] then [] else [row @ [field]])"
| "csv_reader_from st field row (c # cs) =
     (if st = IN_QUOTED_FIELD then
        (if c = CHR 0x22 then csv_reader_from QUOTE_IN_QUOTED_FIELD field row cs
         else csv_reader_from IN_QUOTED_FIELD (field @ [c]) row cs)
      else if c = CHR 0x0A then
        (if st = START_FIELD \<and> row = [] then [] else row @ [field])
          # csv_reader_from START_FIELD [] [] cs
      else if c = CHR '','' then csv_reader_from START_FIELD [] (row @ [field]) cs
      else if st = START_FIELD \<and> c = CHR 0x22 then csv_reader_from IN_QUOTED_FIELD [] row cs
      else if st = QUOTE_IN_QUOTED_FIELD \<and> c = CHR 0x22 then
        csv_reader_from IN_QUOTED_FIELD (field @ [c]) row cs
      else csv_reader_from IN_FIELD (field @ [c]) row cs)"

definition csv_reader :: "string \<Rightarrow> string list list" where
  "csv_reader text = csv_reader_from START_FIELD [] [] text"

section \<open>TrendExtractor\<close>

text \<open>
  \<open>process_trends\<close> mutates each dict and saves it; \<open>clock n\<close> is the value of
  \<open>CURRENT_TIMESTAMP\<close> at the insert into a table of \<open>n\<close> rows.
\<close>

definition process_trend :: "(string \<Rightarrow> py_error + response) \<Rightarrow> trend \<Rightarrow> py_error + trend" where
  "process_trend generate_content trend =
     (let t1 = trend\<lparr>category := Some (categorize CATEGORIES (keyword trend))\<rparr>
      in (case (if sentiment_score t1 = None
                then (case analyze_sentiment generate_content (keyword t1) of
                        Inl e \<Rightarrow> Inl e
                      | Inr s \<Rightarrow> Inr (t1\<lparr>sentiment_score := Some s\<rparr>))
                else Inr t1) of
            Inl e \<Rightarrow> Inl e
          | Inr t2 \<Rightarrow>
              Inr (if engagement_score t2 = None
                   then t2\<lparr>engagement_score :=
                             Some (of_int (case volume t2 of None \<Rightarrow> 0 | Some v \<Rightarrow> v))\<rparr>
                   else t2)))"

fun process_trends ::
  "(string \<Rightarrow> py_error + response) \<Rightarrow> (nat \<Rightarrow> timestamp) \<Rightarrow> trend_row list \<Rightarrow> trend list
     \<Rightarrow> py_error + (trend list \<times> trend_row list)" where
  "process_trends generate_content clock db [] = Inr ([], db)"
| "process_trends generate_content clock db (trend # rest) =
     (case process_trend generate_content trend of
        Inl e \<Rightarrow> Inl e
      | Inr t \<Rightarrow>
          (case process_trends generate_content clock (save_trend (clock (length db)) db t) rest of
             Inl e \<Rightarrow> Inl e
           | Inr (ts, db') \<Rightarrow> Inr (t # ts, db')))"

text \<open>
  \<open>get_current_trends_summary\<close>: \<open>keyword_data\<close> is a dict from keyword to an
  accumulator, kept as the list of its items in insertion order. \<open>list(set)\<close> has no
  fixed order, so the platforms and categories of a summary row stay sets.
  \<open>summary.sort(key=..., reverse=True)\<close> is stable; \<open>summary[:top_n]\<close> with a negative
  \<open>top_n\<close> drops rows from the end.
\<close>

record keyword_data =
  kd_keyword :: string
  kd_platforms :: "string set"
  kd_categories :: "string set"
  kd_total_volume :: int
  kd_total_engagement :: rat
  kd_sentiment_scores :: "rat list"
  kd_occurrences :: nat

record summary_row =
  s_keyword :: string
  platforms :: "string set"
  categories :: "string set"
  total_volume :: int
  total_engagement :: rat
  avg_sentiment :: rat
  occurrences :: nat
  combined_score :: rat

definition new_keyword_data :: "string \<Rightarrow> keyword_data" where
  "new_keyword_data k =
     \<lparr>kd_keyword = k, kd_platforms = {}, kd_categories = {}, kd_total_volume = 0,
      kd_total_engagement = 0, kd_sentiment_scores = [], kd_occurrences = 0\<rparr>"

definition accumulate :: "trend_row \<Rightarrow> keyword_data \<Rightarrow> keyword_data" where
  "accumulate trend d =
     d\<lparr>kd_platforms := insert (r_platform trend) (kd_platforms d),
       kd_categories := insert (r_category trend) (kd_categories d),
       kd_total_volume := kd_total_volume d + r_volume trend,
       kd_total_engagement := kd_total_engagement d + r_engagement_score trend,
       kd_sentiment_scores := kd_sentiment_scores d @ [r_sentiment_score trend],
       kd_occurrences := kd_occurrences d + 1\<rparr>"

definition add_trend ::
  "(string \<times> keyword_data) list \<Rightarrow> trend_row \<Rightarrow> (string \<times> keyword_data) list" where
  "add_trend kdata trend =
     (let k = r_keyword trend;
          kdata' = (if map_of kdata k = None then AList.update k (new_keyword_data k) kdata
                    else kdata)
      in AList.map_entry k (accumulate trend) kdata')"

definition summarise :: "keyword_data \<Rightarrow> summary_row" where
  "summarise d =
     \<lparr>s_keyword = kd_keyword d,
      platforms = kd_platforms d,
      categories = kd_categories d,
      total_volume = kd_total_volume d,
      total_engagement = kd_total_engagement d,
      avg_sentiment =
        (if kd_sentiment_scores d \<noteq> []
         then sum_list (kd_sentiment_scores d) / of_nat (length (kd_sentiment_scores d))
         else 0),
      occurrences = kd_occurrences d,
      combined_score = of_int (kd_total_volume d) + kd_total_engagement d\<rparr>"

definition py_slice_to :: "int \<Rightarrow> 'a list \<Rightarrow> 'a list" where
  "py_slice_to n xs = (if n < 0 then take (length xs - nat (- n)) xs else take (nat n) xs)"

definition trends_summary :: "int \<Rightarrow> trend_row list \<Rightarrow> summary_row list" where
  "trends_summary top_n trends =
     py_slice_to top_n
       (sort_key (\<lambda>s. - combined_score s)
          (map (\<lambda>(k, d). summarise d) (foldl add_trend [] trends)))"

definition get_current_trends_summary ::
  "timestamp \<Rightarrow> int \<Rightarrow> trend_row list \<Rightarrow> py_error + summary_row list" where
  "get_current_trends_summary now top_n db =
     (case get_historical_trends now 7 db of
        Inl e \<Rightarrow> Inl e
      | Inr trends \<Rightarrow> Inr (trends_summary top_n trends))"

subsection \<open>The aggregation as the specification words it\<close>

text \<open>
  The specification's wording of the accumulator of one keyword, used to compare the
  loop with: the observations of the keyword, in the order read; the sets of their
  platforms and categories, the sums of their volumes and engagement scores, the list of
  their sentiment scores and their number.
\<close>

definition spec_keyword_data :: "string \<Rightarrow> trend_row list \<Rightarrow> keyword_data" where
  "spec_keyword_data k trends =
     (let obs = filter (\<lambda>t. r_keyword t = k) trends
      in \<lparr>kd_keyword = k,
          kd_platforms = r_platform ` set obs,
          kd_categories = r_category ` set obs,
          kd_total_volume = sum_list (map r_volume obs),
          kd_total_engagement = sum_list (map r_engagement_score obs),
          kd_sentiment_scores = map r_sentiment_score obs,
          kd_occurrences = length obs\<rparr>)"

section \<open>Properties of the categorizer\<close>

lemma update_fresh: "k \<notin> fst ` set al \<Longrightarrow> AList.update k v al = al @ [(k, v)]"
  by (induction al) auto

lemma category_scores_filter:
  "distinct (map fst acc @ map fst cats) \<Longrightarrow>
   category_scores cats kl acc =
     acc @ filter (\<lambda>p. 0 < snd p) (map (\<lambda>(c, ts). (c, trigger_score ts kl)) cats)"
proof (induction cats arbitrary: acc)
  case Nil
  then show ?case by simp
next
  case (Cons a cats)
  obtain category kws where a: "a = (category, kws)" by (cases a)
  have fresh: "category \<notin> fst ` set acc" using Cons.prems a by auto
  show ?case
  proof (cases "0 < trigger_score kws kl")
    case True
    have d: "distinct (map fst (acc @ [(category, trigger_score kws kl)]) @ map fst cats)"
      using Cons.prems a by auto
    show ?thesis using True Cons.IH[OF d] fresh a by (simp add: update_fresh)
  next
    case False
    have d: "distinct (map fst acc @ map fst cats)" using Cons.prems by auto
    show ?thesis using False Cons.IH[OF d] a by simp
  qed
qed

lemma max_from_first_max:
  "(max_from b ps = fst b \<and> (\<forall>q \<in> set ps. snd q \<le> snd b)) \<or>
   (\<exists>pre p post. ps = pre @ p # post \<and> max_from b ps = fst p \<and> snd b < snd p \<and>
      (\<forall>q \<in> set pre. snd q < snd p) \<and> (\<forall>q \<in> set post. snd q \<le> snd p))"
proof (induction ps arbitrary: b)
  case Nil
  then show ?case by simp
next
  case (Cons a ps)
  show ?case
  proof (cases "snd b < snd a")
    case True
    from Cons.IH[of a] show ?thesis
    proof
      assume h: "max_from a ps = fst a \<and> (\<forall>q \<in> set ps. snd q \<le> snd a)"
      have "a # ps = [] @ a # ps \<and> max_from b (a # ps) = fst a \<and> snd b < snd a \<and>
         (\<forall>q \<in> set []. snd q < snd a) \<and> (\<forall>q \<in> set ps. snd q \<le> snd a)"
        using h True by simp
      then show ?thesis by blast
    next
      assume "\<exists>pre p post. ps = pre @ p # post \<and> max_from a ps = fst p \<and> snd a < snd p \<and>
        (\<forall>q \<in> set pre. snd q < snd p) \<and> (\<forall>q \<in> set post. snd q \<le> snd p)"
      then obtain pre p post where h: "ps = pre @ p # post" "max_from a ps = fst p" "snd a < snd p"
        "\<forall>q \<in> set pre. snd q < snd p" "\<forall>q \<in> set post. snd q \<le> snd p" by blast
      have "a # ps = (a # pre) @ p # post \<and> max_from b (a # ps) = fst p \<and> snd b < snd p \<and>
         (\<forall>q \<in> set (a # pre). snd q < snd p) \<and> (\<forall>q \<in> set post. snd q \<le> snd p)"
        using h True by auto
      then show ?thesis by blast
    qed
  next
    case False
    from Cons.IH[of b] show ?thesis
    proof
      assume h: "max_from b ps = fst b \<and> (\<forall>q \<in> set ps. snd q \<le> snd b)"
      then show ?thesis using False by auto
    next
      assume "\<exists>pre p post. ps = pre @ p # post \<and> max_from b ps = fst p \<and> snd b < snd p \<and>
        (\<forall>q \<in> set pre. snd q < snd p) \<and> (\<forall>q \<in> set post. snd q \<le> snd p)"
      then obtain pre p post where h: "ps = pre @ p # post" "max_from b ps = fst p" "snd b < snd p"
        "\<forall>q \<in> set pre. snd q < snd p" "\<forall>q \<in> set post. snd q \<le> snd p" by blast
      have "a # ps = (a # pre) @ p # post \<and> max_from b (a # ps) = fst p \<and> snd b < snd p \<and>
         (\<forall>q \<in> set (a # pre). snd q < snd p) \<and> (\<forall>q \<in> set post. snd q \<le> snd p)"
        using h False by auto
      then show ?thesis by blast
    qed
  qed
qed

lemma max_from_decomp:
  "\<exists>pre p post. b # ps = pre @ p # post \<and> max_from b ps = fst p \<and>
      (\<forall>q \<in> set pre. snd q < snd p) \<and> (\<forall>q \<in> set post. snd q \<le> snd p)"
  using max_from_first_max[of b ps]
proof
  assume h: "max_from b ps = fst b \<and> (\<forall>q \<in> set ps. snd q \<le> snd b)"
  have "b # ps = [] @ b # ps \<and> max_from b ps = fst b \<and>
      (\<forall>q \<in> set []. snd q < snd b) \<and> (\<forall>q \<in> set ps. snd q \<le> snd b)" using h by simp
  then show ?thesis by blast
next
  assume "\<exists>pre p post. ps = pre @ p # post \<and> max_from b ps = fst p \<and> snd b < snd p \<and>
        (\<forall>q \<in> set pre. snd q < snd p) \<and> (\<forall>q \<in> set post. snd q \<le> snd p)"
  then obtain pre p post where h: "ps = pre @ p # post" "max_from b ps = fst p" "snd b < snd p"
        "\<forall>q \<in> set pre. snd q < snd p" "\<forall>q \<in> set post. snd q \<le> snd p" by blast
  have "b # ps = (b # pre) @ p # post \<and> max_from b ps = fst p \<and>
         (\<forall>q \<in> set (b # pre). snd q < snd p) \<and> (\<forall>q \<in> set post. snd q \<le> snd p)"
    using h by auto
  then show ?thesis by blast
qed

lemma filter_decomp:
  "filter P xs = pre' @ x # post' \<Longrightarrow>
   \<exists>pre post. xs = pre @ x # post \<and> filter P pre = pre' \<and> filter P post = post' \<and> P x"
proof (induction xs arbitrary: pre')
  case Nil
  then show ?case by simp
next
  case (Cons a xs)
  show ?case
  proof (cases "P a")
    case False
    with Cons.prems have "filter P xs = pre' @ x # post'" by simp
    from Cons.IH[OF this] obtain pre post where
      "xs = pre @ x # post" "filter P pre = pre'" "filter P post = post'" "P x" by blast
    then have "a # xs = (a # pre) @ x # post \<and> filter P (a # pre) = pre' \<and> filter P post = post' \<and> P x"
      using False by simp
    then show ?thesis by blast
  next
    case True
    show ?thesis
    proof (cases pre')
      case Nil
      with Cons.prems True have "a = x" "filter P xs = post'" by auto
      then have "a # xs = [] @ x # xs \<and> filter P [] = pre' \<and> filter P xs = post' \<and> P x"
        using Nil True by simp
      then show ?thesis by blast
    next
      case (Cons b pre'')
      with Cons.prems True have "a = b" "filter P xs = pre'' @ x # post'" by auto
      from Cons.IH[OF this(2)] obtain pre post where
        h: "xs = pre @ x # post" "filter P pre = pre''" "filter P post = post'" "P x" by blast
      have "a # xs = (a # pre) @ x # post \<and> filter P (a # pre) = pre' \<and> filter P post = post' \<and> P x"
        using h True Cons \<open>a = b\<close> by simp
      then show ?thesis by blast
    qed
  qed
qed

text \<open>
  C1. Whenever some category has a trigger contained, case-insensitively, in the keyword,
  \<open>categorize\<close> returns the label of a category whose count of contained triggers is
  positive, at least the count of every other category, and strictly greater than the
  count of every category declared before it: the first category of greatest count in
  the declaration order of the map.
\<close>

theorem categorize_first_greatest:
  assumes "distinct (map fst cats)"
    and "\<exists>(c, ts) \<in> set cats. 0 < trigger_score ts (py_lower kwd)"
  shows "\<exists>pre c ts post. cats = pre @ (c, ts) # post \<and>
           categorize cats kwd = c \<and>
           0 < trigger_score ts (py_lower kwd) \<and>
           (\<forall>(c', ts') \<in> set pre.
              trigger_score ts' (py_lower kwd) < trigger_score ts (py_lower kwd)) \<and>
           (\<forall>(c', ts') \<in> set post.
              trigger_score ts' (py_lower kwd) \<le> trigger_score ts (py_lower kwd))"
proof -
  let ?kl = "py_lower kwd"
  let ?sc = "\<lambda>(c, ts). (c, trigger_score ts ?kl)"
  let ?P = "\<lambda>p :: string \<times> nat. 0 < snd p"
  have cs: "category_scores cats ?kl [] = filter ?P (map ?sc cats)"
    using category_scores_filter[of "[]" cats ?kl] assms(1) by simp
  from assms(2) have ne: "filter ?P (map ?sc cats) \<noteq> []"
    by (fastforce simp: filter_empty_conv)
  then obtain b ps where bps: "filter ?P (map ?sc cats) = b # ps"
    by (cases "filter ?P (map ?sc cats)") auto
  have cat: "categorize cats kwd = max_from b ps"
    by (simp add: categorize_def cs bps)
  from max_from_decomp[of b ps] obtain pre' p post' where
    d: "b # ps = pre' @ p # post'" "max_from b ps = fst p"
       "\<forall>q \<in> set pre'. snd q < snd p" "\<forall>q \<in> set post'. snd q \<le> snd p" by blast
  from filter_decomp[of ?P "map ?sc cats" pre' p post'] bps d(1)
  obtain mpre mpost where
    m: "map ?sc cats = mpre @ p # mpost" "filter ?P mpre = pre'"
       "filter ?P mpost = post'" "?P p" by auto
  from m(1) obtain pre x post where
    x: "cats = pre @ x # post" "map ?sc pre = mpre" "?sc x = p" "map ?sc post = mpost"
    by (auto simp: map_eq_append_conv map_eq_Cons_conv)
  obtain c ts where cts: "x = (c, ts)" by (cases x)
  have p: "p = (c, trigger_score ts ?kl)" using x(3) cts by simp
  have lt: "\<forall>(c', ts') \<in> set pre. trigger_score ts' ?kl < trigger_score ts ?kl"
  proof (clarify)
    fix c' ts' assume i: "(c', ts') \<in> set pre"
    then have mem: "(c', trigger_score ts' ?kl) \<in> set mpre" using x(2) by force
    show "trigger_score ts' ?kl < trigger_score ts ?kl"
    proof (cases "0 < trigger_score ts' ?kl")
      case True
      then have "(c', trigger_score ts' ?kl) \<in> set pre'" using mem m(2) by auto
      then show ?thesis using d(3) p by auto
    next
      case False
      then show ?thesis using m(4) p by simp
    qed
  qed
  have le: "\<forall>(c', ts') \<in> set post. trigger_score ts' ?kl \<le> trigger_score ts ?kl"
  proof (clarify)
    fix c' ts' assume i: "(c', ts') \<in> set post"
    then have mem: "(c', trigger_score ts' ?kl) \<in> set mpost" using x(4) by force
    show "trigger_score ts' ?kl \<le> trigger_score ts ?kl"
    proof (cases "0 < trigger_score ts' ?kl")
      case True
      then have "(c', trigger_score ts' ?kl) \<in> set post'" using mem m(3) by auto
      then show ?thesis using d(4) p by auto
    next
      case False
      then show ?thesis by simp
    qed
  qed
  have "cats = pre @ (c, ts) # post \<and> categorize cats kwd = c \<and>
        0 < trigger_score ts ?kl" using x(1) cts cat d(2) p m(4) by simp
  with lt le show ?thesis by blast
qed

theorem categorize_first_greatest_witness:
  "distinct (map fst CATEGORIES) \<and>
   (\<exists>(c, ts) \<in> set CATEGORIES. 0 < trigger_score ts (py_lower ''SEO blog'')) \<and>
   (\<exists>pre ts post. CATEGORIES = pre @ (''Content Marketing'', ts) # post \<and>
      categorize CATEGORIES ''SEO blog'' = ''Content Marketing'' \<and>
      0 < trigger_score ts (py_lower ''SEO blog''))"
proof -
  have d: "distinct (map fst CATEGORIES)" by code_simp
  have m: "\<exists>(c, ts) \<in> set CATEGORIES. 0 < trigger_score ts (py_lower ''SEO blog'')"
    by code_simp
  have v: "categorize CATEGORIES ''SEO blog'' = ''Content Marketing''" by code_simp
  from categorize_first_greatest[OF d m] obtain pre c ts post where
    "CATEGORIES = pre @ (c, ts) # post" "categorize CATEGORIES ''SEO blog'' = c"
    "0 < trigger_score ts (py_lower ''SEO blog'')" by blast
  with d m v show ?thesis by auto
qed

text \<open>
  C6 (as amended). A keyword in which no trigger of any category occurs,
  case-insensitively, is given the default label \<open>General Marketing\<close>.
\<close>

theorem categorize_no_match:
  assumes "\<forall>(c, ts) \<in> set cats. \<forall>kw \<in> set ts. \<not> sublist (py_lower kw) (py_lower kwd)"
  shows "categorize cats kwd = ''General Marketing''"
proof -
  have z: "\<And>acc. category_scores cats (py_lower kwd) acc = acc"
    using assms
  proof (induction cats)
    case Nil
    then show ?case by simp
  next
    case (Cons a cats)
    obtain c ts where a: "a = (c, ts)" by (cases a)
    have "trigger_score ts (py_lower kwd) = 0"
      using Cons.prems a by (auto simp: trigger_score_def filter_empty_conv)
    then show ?case using Cons a by simp
  qed
  show ?thesis by (simp add: categorize_def z)
qed

theorem categorize_no_match_witness:
  "\<not> (\<exists>(c, ts) \<in> set CATEGORIES. \<exists>kw \<in> set ts. sublist (py_lower kw) (py_lower ''xyz'')) \<and>
   categorize CATEGORIES ''xyz'' = ''General Marketing''"
proof -
  have h: "\<forall>(c, ts) \<in> set CATEGORIES. \<forall>kw \<in> set ts. \<not> sublist (py_lower kw) (py_lower ''xyz'')"
    by code_simp
  from categorize_no_match[OF h] h show ?thesis by blast
qed

text \<open>
  The specification names the label \<open>uncategorized\<close>; the keyword \<open>xyz\<close> matches no
  trigger and is labelled \<open>General Marketing\<close>.
\<close>

theorem categorize_uncategorized_counterexample:
  "\<not> (\<exists>(c, ts) \<in> set CATEGORIES. \<exists>kw \<in> set ts. sublist (py_lower kw) (py_lower ''xyz'')) \<and>
   categorize CATEGORIES ''xyz'' \<noteq> ''uncategorized''"
  by code_simp

text \<open>The containment test of \<open>trigger_score\<close> ignores case.\<close>

lemma map_eq_append_split:
  "map f xs = ys @ zs \<Longrightarrow> \<exists>us vs. xs = us @ vs \<and> map f us = ys \<and> map f vs = zs"
  by (auto simp: map_eq_append_conv)

lemma sublist_lower_iff:
  "sublist (py_lower t) (py_lower k) \<longleftrightarrow>
     (\<exists>ps m ss. k = ps @ m @ ss \<and> py_lower m = py_lower t)"
proof
  assume "sublist (py_lower t) (py_lower k)"
  then obtain ps' ss' where "map py_lower_char k = ps' @ map py_lower_char t @ ss'"
    unfolding sublist_def py_lower_def by blast
  from map_eq_append_split[OF this] obtain ps rest where k: "k = ps @ rest" and
    r: "map py_lower_char rest = map py_lower_char t @ ss'"
    by blast
  from map_eq_append_split[OF r] obtain m ss where
    "rest = m @ ss" "map py_lower_char m = map py_lower_char t"
    by blast
  with k show "\<exists>ps m ss. k = ps @ m @ ss \<and> py_lower m = py_lower t"
    unfolding py_lower_def by blast
next
  assume "\<exists>ps m ss. k = ps @ m @ ss \<and> py_lower m = py_lower t"
  then obtain ps m ss where "k = ps @ m @ ss" "py_lower m = py_lower t" by blast
  then have "py_lower k = py_lower ps @ py_lower t @ py_lower ss"
    by (simp add: py_lower_def)
  then show "sublist (py_lower t) (py_lower k)" unfolding sublist_def by blast
qed

section \<open>Properties of the sentiment scorer\<close>

lemma not_decimal_dot: "\<not> is_decimal CHR ''.''" by (simp add: is_decimal_def)
lemma not_decimal_minus: "\<not> is_decimal CHR ''-''" by (simp add: is_decimal_def)

lemma py_float_token:
  assumes "ds \<noteq> []" "\<forall>c \<in> set ds. is_decimal c" "\<forall>c \<in> set fs. is_decimal c"
    and "sign = [] \<or> sign = [CHR ''-'']" and "rest = [] \<or> rest = CHR ''.'' # fs"
  shows "\<exists>v. py_float (sign @ ds @ rest) = Inr v"
proof -
  have hd_ds: "hd ds \<noteq> CHR ''-''" using assms(1,2) not_decimal_minus by (cases ds) auto
  have tw: "takeWhile is_decimal (ds @ rest) = ds"
    using assms(2,5) not_decimal_dot by (auto simp: takeWhile_append2)
  have dw: "dropWhile is_decimal (ds @ rest) = rest"
    using assms(2,5) not_decimal_dot by (auto simp: dropWhile_append2)
  have fp: "list_all is_decimal (case rest of [] \<Rightarrow> [] | c # r'' \<Rightarrow> r'')"
    using assms(3,5) by (auto simp: list_all_iff)
  have hr: "rest = [] \<or> hd rest = CHR ''.''" using assms(5) by auto
  from assms(4) show ?thesis
  proof
    assume s: "sign = []"
    have "hd (ds @ rest) \<noteq> CHR ''-''" using hd_ds assms(1) by simp
    then show ?thesis using fp hr assms(1,2) tw dw by (auto simp add: py_float_def Let_def s)
  next
    assume s: "sign = [CHR ''-'']"
    show ?thesis using fp hr assms(1,2) tw dw by (auto simp add: py_float_def Let_def s)
  qed
qed

lemma match_number_float: "match_number s = Some tok \<Longrightarrow> \<exists>v. py_float tok = Inr v"
proof -
  assume m: "match_number s = Some tok"
  define sign where "sign = (case s of [] \<Rightarrow> [] | c # _ \<Rightarrow> if c = CHR ''-'' then [c] else [])"
  define r where "r = drop (length sign) s"
  define ds where "ds = takeWhile is_decimal r"
  define r' where "r' = dropWhile is_decimal r"
  have sg: "sign = [] \<or> sign = [CHR ''-'']" by (auto simp: sign_def split: list.splits)
  have dsd: "\<forall>c \<in> set ds. is_decimal c" unfolding ds_def by (auto dest: set_takeWhileD)
  from m have ne: "ds \<noteq> []"
    by (auto simp: match_number_def Let_def sign_def r_def ds_def split: if_splits)
  from m ne have "tok = sign @ ds \<or> (\<exists>fs. r' = CHR ''.'' # fs \<and> tok = sign @ ds @ CHR ''.'' # takeWhile is_decimal fs)"
    by (auto simp: match_number_def Let_def sign_def r_def ds_def r'_def split: if_splits list.splits)
  then show ?thesis
  proof
    assume "tok = sign @ ds"
    then show ?thesis using py_float_token[OF ne dsd _ sg, of "[]" "[]"] by simp
  next
    assume "\<exists>fs. r' = CHR ''.'' # fs \<and> tok = sign @ ds @ CHR ''.'' # takeWhile is_decimal fs"
    then obtain fs where t: "tok = sign @ ds @ CHR ''.'' # takeWhile is_decimal fs" by blast
    have f: "\<forall>c \<in> set (takeWhile is_decimal fs). is_decimal c" by (auto dest: set_takeWhileD)
    show ?thesis using py_float_token[OF ne dsd f sg, of "CHR ''.'' # takeWhile is_decimal fs"] t by simp
  qed
qed

lemma first_number_float: "first_number s = Some tok \<Longrightarrow> \<exists>v. py_float tok = Inr v"
  by (induction s) (auto split: option.splits dest: match_number_float)

text \<open>
  C2. Whatever the hosted model does, \<open>analyze_sentiment\<close> returns a score and raises
  nothing; the score lies between -1 and 1; it is 0 when the call raises, when reading
  the response text raises, and when the text holds no numeric token; otherwise it is the
  value of the first numeric token, clamped.
\<close>

theorem analyze_sentiment_bounded:
  "\<exists>score. analyze_sentiment generate_content text = Inr score \<and> - 1 \<le> score \<and> score \<le> 1 \<and>
     ((\<exists>e. generate_content (sentiment_prompt text) = Inl e) \<longrightarrow> score = 0) \<and>
     ((\<exists>e. generate_content (sentiment_prompt text) = Inr (Inl e)) \<longrightarrow> score = 0) \<and>
     (\<forall>t. generate_content (sentiment_prompt text) = Inr (Inr t) \<and>
          first_number (strip t) = None \<longrightarrow> score = 0) \<and>
     (\<forall>t tok. generate_content (sentiment_prompt text) = Inr (Inr t) \<and>
          first_number (strip t) = Some tok \<longrightarrow>
          (\<exists>v. py_float tok = Inr v \<and> score = max (- 1) (min 1 v)))"
proof (cases "generate_content (sentiment_prompt text)")
  case (Inl e)
  then show ?thesis by (simp add: analyze_sentiment_def analyze_sentiment_try_def)
next
  case (Inr response)
  show ?thesis
  proof (cases response)
    case (Inl e)
    with Inr show ?thesis by (simp add: analyze_sentiment_def analyze_sentiment_try_def)
  next
    case r: (Inr t)
    show ?thesis
    proof (cases "first_number (strip t)")
      case None
      with Inr r show ?thesis by (simp add: analyze_sentiment_def analyze_sentiment_try_def)
    next
      case (Some tok)
      from first_number_float[OF Some] obtain v where v: "py_float tok = Inr v" by blast
      with Inr r Some show ?thesis
        by (simp add: analyze_sentiment_def analyze_sentiment_try_def)
    qed
  qed
qed

theorem analyze_sentiment_bounded_witness:
  "analyze_sentiment (\<lambda>p. Inl (ServiceError ''quota exceeded'')) ''great launch'' = Inr 0 \<and>
   analyze_sentiment (\<lambda>p. Inr (Inr ''no score'')) ''great launch'' = Inr 0"
proof -
  have n: "first_number (strip ''no score'') = None" by code_simp
  show ?thesis
    using analyze_sentiment_bounded[of "\<lambda>p. Inl (ServiceError ''quota exceeded'')" "''great launch''"]
      analyze_sentiment_bounded[of "\<lambda>p. Inr (Inr ''no score'')" "''great launch''"] n
    by auto
qed

section \<open>Properties of the date comparison, the purge and the reads\<close>

lemma of_char_digit: "d < 10 \<Longrightarrow> (of_char (char_of (48 + d) :: char) :: nat) = 48 + d"
  by (simp add: of_char_of)

lemma digit_char_inj:
  assumes "a < 10" "b < 10"
  shows "(char_of (48 + a) :: char) = char_of (48 + b) \<longleftrightarrow> a = (b::nat)"
proof
  assume "(char_of (48 + a) :: char) = char_of (48 + b)"
  then have "(of_char (char_of (48 + a) :: char) :: nat) = of_char (char_of (48 + b) :: char)"
    by (rule arg_cong)
  then show "a = b" using of_char_digit[OF assms(1)] of_char_digit[OF assms(2)] by linarith
next
  assume "a = b" then show "(char_of (48 + a) :: char) = char_of (48 + b)" by (rule arg_cong)
qed

lemma digit_less:
  assumes "a < 10" "b < 10"
  shows "str_less [char_of (48 + a)] [char_of (48 + b)] \<longleftrightarrow> a < (b::nat)"
  using of_char_digit[OF assms(1)] of_char_digit[OF assms(2)]
  by (simp only: str_less.simps) auto

lemma pad_digits_0: "pad_digits 0 n = []"
  by (subst pad_digits.simps) simp

lemma pad_digits_Suc: "pad_digits (Suc w) n = pad_digits w (n div 10) @ [char_of (48 + n mod 10)]"
  by (subst pad_digits.simps) simp

lemma length_pad_digits: "length (pad_digits w n) = w"
  by (induction w arbitrary: n) (auto simp: pad_digits_0 pad_digits_Suc)

lemma str_less_irrefl: "\<not> str_less s s"
  by (induction s) auto

lemma str_less_append:
  "length a = length b \<Longrightarrow>
     str_less (a @ x) (b @ y) \<longleftrightarrow> str_less a b \<or> (a = b \<and> str_less x y)"
  by (induction a b rule: list_induct2) auto

lemma lex10:
  "ra < 10 \<Longrightarrow> rb < 10 \<Longrightarrow>
     (10 * qa + ra < 10 * qb + rb) \<longleftrightarrow> (qa < qb \<or> (qa = qb \<and> ra < (rb::nat)))"
  by arith

lemma eq10:
  "ra < 10 \<Longrightarrow> rb < 10 \<Longrightarrow>
     (10 * qa + ra = 10 * qb + rb) \<longleftrightarrow> (qa = qb \<and> ra = (rb::nat))"
  by arith

lemma pad_digits_order:
  "a < 10 ^ w \<Longrightarrow> b < 10 ^ w \<Longrightarrow>
     (str_less (pad_digits w a) (pad_digits w b) \<longleftrightarrow> a < b) \<and>
     (pad_digits w a = pad_digits w b \<longleftrightarrow> a = b)"
proof (induction w arbitrary: a b)
  case 0
  then show ?case by (simp add: pad_digits_0)
next
  case (Suc w)
  have qa: "a div 10 < 10 ^ w" and qb: "b div 10 < 10 ^ w"
    using Suc.prems by (simp_all add: less_mult_imp_div_less mult.commute)
  note ih = Suc.IH[OF qa qb]
  have ra: "a mod 10 < 10" and rb: "b mod 10 < 10" by simp_all
  have ea: "a = 10 * (a div 10) + a mod 10" and eb: "b = 10 * (b div 10) + b mod 10"
    by simp_all
  have l: "length (pad_digits w (a div 10)) = length (pad_digits w (b div 10))"
    by (simp only: length_pad_digits)
  have less: "str_less (pad_digits (Suc w) a) (pad_digits (Suc w) b) \<longleftrightarrow>
      a div 10 < b div 10 \<or> (a div 10 = b div 10 \<and> a mod 10 < b mod 10)"
    unfolding pad_digits_Suc str_less_append[OF l] using ih digit_less[OF ra rb] by blast
  have eq: "pad_digits (Suc w) a = pad_digits (Suc w) b \<longleftrightarrow>
      a div 10 = b div 10 \<and> a mod 10 = b mod 10"
    unfolding pad_digits_Suc using ih digit_char_inj[OF ra rb] by simp
  have ar1: "(a div 10 < b div 10 \<or> (a div 10 = b div 10 \<and> a mod 10 < b mod 10)) \<longleftrightarrow> a < b"
    using lex10[OF ra rb, of "a div 10" "b div 10"] by (simp only: mult_div_mod_eq)
  have ar2: "(a div 10 = b div 10 \<and> a mod 10 = b mod 10) \<longleftrightarrow> a = b"
    using eq10[OF ra rb, of "a div 10" "b div 10"] by (simp only: mult_div_mod_eq)
  show ?case using less eq ar1 ar2 by blast
qed

lemma digits_of_four: "1000 \<le> n \<Longrightarrow> n \<le> 9999 \<Longrightarrow> digits_of n = pad_digits 4 n"
proof -
  assume a: "1000 \<le> n" "n \<le> 9999"
  have s: "pad_digits 4 n = pad_digits (Suc (Suc (Suc (Suc 0)))) n" by (simp only: numeral_eq_Suc pred_numeral_simps numeral_One Suc_numeral arith_simps One_nat_def)
  have 1: "\<not> n < 10" using a by linarith
  have 2: "\<not> n div 10 < 10" using a by linarith
  have 3: "\<not> n div 10 div 10 < 10" using a by (simp add: div_mult2_eq[symmetric])
  have 4: "n div 10 div 10 div 10 < 10" using a by (simp add: div_mult2_eq[symmetric] less_mult_imp_div_less)
  have d1: "digits_of n = digits_of (n div 10) @ [char_of (48 + n mod 10)]"
    using 1 by (subst digits_of.simps) simp
  have d2: "digits_of (n div 10) = digits_of (n div 10 div 10) @ [char_of (48 + n div 10 mod 10)]"
    using 2 by (subst digits_of.simps) simp
  have d3: "digits_of (n div 10 div 10) =
      digits_of (n div 10 div 10 div 10) @ [char_of (48 + n div 10 div 10 mod 10)]"
    using 3 by (subst digits_of.simps) simp
  have d4: "digits_of (n div 10 div 10 div 10) = [char_of (48 + n div 10 div 10 div 10)]"
    using 4 by (subst digits_of.simps) simp
  have m: "n div 10 div 10 div 10 mod 10 = n div 10 div 10 div 10" using 4 by simp
  show ?thesis unfolding s d1 d2 d3 d4 by (simp add: m pad_digits_0 pad_digits_Suc)
qed

lemma sqlite_date_order:
  assumes "ts_year a \<le> 9999" "ts_month a < 100" "ts_day a < 100"
    and "ts_year b \<le> 9999" "ts_month b < 100" "ts_day b < 100"
  shows "str_less (sqlite_date a) (sqlite_date b) \<longleftrightarrow> date_before a b"
proof -
  have y: "ts_year a < 10 ^ 4" "ts_year b < 10 ^ 4" using assms by simp_all
  have m: "ts_month a < 10 ^ 2" "ts_month b < 10 ^ 2" using assms by simp_all
  have d: "ts_day a < 10 ^ 2" "ts_day b < 10 ^ 2" using assms by simp_all
  note oy = pad_digits_order[OF y]
  note om = pad_digits_order[OF m]
  note od = pad_digits_order[OF d]
  have ly: "length (pad_digits 4 (ts_year a)) = length (pad_digits 4 (ts_year b))"
    by (simp only: length_pad_digits)
  have lm: "length (pad_digits 2 (ts_month a)) = length (pad_digits 2 (ts_month b))"
    by (simp only: length_pad_digits)
  have sep: "\<And>x y. str_less (''-'' @ x) (''-'' @ y) = str_less x y" by simp
  have "str_less (sqlite_date a) (sqlite_date b) \<longleftrightarrow>
      ts_year a < ts_year b \<or> (ts_year a = ts_year b \<and>
        str_less (pad_digits 2 (ts_month a) @ ''-'' @ pad_digits 2 (ts_day a))
                 (pad_digits 2 (ts_month b) @ ''-'' @ pad_digits 2 (ts_day b)))"
    unfolding sqlite_date_def using str_less_append[OF ly] oy sep by simp
  also have "str_less (pad_digits 2 (ts_month a) @ ''-'' @ pad_digits 2 (ts_day a))
                 (pad_digits 2 (ts_month b) @ ''-'' @ pad_digits 2 (ts_day b)) \<longleftrightarrow>
      ts_month a < ts_month b \<or> (ts_month a = ts_month b \<and> ts_day a < ts_day b)"
    using str_less_append[OF lm] om od sep by simp
  finally show ?thesis by (simp add: date_before_def)
qed

lemma strftime_four_digit_year:
  "1000 \<le> ts_year t \<Longrightarrow> ts_year t \<le> 9999 \<Longrightarrow> strftime_date t = sqlite_date t"
  by (simp add: strftime_date_def sqlite_date_def digits_of_four)

lemma month_day_valid:
  assumes "0 \<le> n" "n \<le> 364" "month_day leapyear n = (m, d)"
  shows "1 \<le> m \<and> m \<le> 12 \<and> 1 \<le> d \<and> d \<le> 31"
proof -
  define k where "k = (n + 50) div 32"
  have kr: "1 \<le> k" "k \<le> 12" using assms(1,2) unfolding k_def by linarith+
  have kb: "32 * k - 50 \<le> n" "n \<le> 32 * k - 19" unfolding k_def by linarith+
  from kr have "k = 1 \<or> k = 2 \<or> k = 3 \<or> k = 4 \<or> k = 5 \<or> k = 6 \<or> k = 7 \<or> k = 8 \<or> k = 9 \<or>
      k = 10 \<or> k = 11 \<or> k = 12" by presburger
  then show ?thesis
    using assms kb unfolding month_day_def Let_def k_def[symmetric]
    by (elim disjE) (auto simp: DAYS_BEFORE_MONTH_def DAYS_IN_MONTH_def split: if_splits)
qed

lemma ord2ymd_valid:
  assumes "ord2ymd k = (y, m, d)"
  shows "1 \<le> m \<and> m \<le> 12 \<and> 1 \<le> d \<and> d \<le> 31"
proof -
  define n where "n = (k - 1) mod 146097 mod 36524 mod 1461 mod 365"
  define n1 where "n1 = (k - 1) mod 146097 mod 36524 mod 1461 div 365"
  define n4 where "n4 = (k - 1) mod 146097 mod 36524 div 1461"
  define n100 where "n100 = (k - 1) mod 146097 div 36524"
  have nr: "0 \<le> n" "n \<le> 364" unfolding n_def by simp_all
  show ?thesis
  proof (cases "n1 = 4 \<or> n100 = 4")
    case True
    then have "ord2ymd k = ((k - 1) div 146097 * 400 + 1 + n100 * 100 + n4 * 4 + n1 - 1, 12, 31)"
      unfolding ord2ymd_def Let_def n1_def n100_def n4_def by simp
    with assms show ?thesis by simp
  next
    case False
    obtain mm dd where md: "month_day (n1 = 3 \<and> (n4 \<noteq> 24 \<or> n100 = 3)) n = (mm, dd)"
      by (cases "month_day (n1 = 3 \<and> (n4 \<noteq> 24 \<or> n100 = 3)) n")
    from False md have "ord2ymd k = ((k - 1) div 146097 * 400 + 1 + n100 * 100 + n4 * 4 + n1, mm, dd)"
      unfolding ord2ymd_def Let_def n1_def n100_def n4_def n_def by simp
    with assms have "m = mm" "d = dd" by simp_all
    with month_day_valid[OF nr md] show ?thesis by simp
  qed
qed

lemma threshold_datetime_valid:
  assumes "threshold_datetime now days = Inr t"
  shows "1 \<le> ts_month t \<and> ts_month t \<le> 12 \<and> 1 \<le> ts_day t \<and> ts_day t \<le> 31 \<and> secs t = secs now"
proof -
  define k where "k = ymd2ord (int (ts_year now)) (int (ts_month now)) (int (ts_day now)) - days"
  obtain y m d where o: "ord2ymd k = (y, m, d)" by (cases "ord2ymd k") auto
  from assms have "t = \<lparr>ts_year = nat y, ts_month = nat m, ts_day = nat d, secs = secs now\<rparr>"
    unfolding threshold_datetime_def Let_def k_def[symmetric] using o
    by (auto split: if_splits)
  with ord2ymd_valid[OF o] show ?thesis by auto
qed

lemma date_threshold_text:
  "threshold_datetime now days = Inr t \<Longrightarrow> date_threshold now days = Inr (strftime_date t)"
  by (simp add: date_threshold_def)

lemma older_text_iff_date_before:
  assumes "threshold_datetime now days = Inr t" "1000 \<le> ts_year t" "ts_year t \<le> 9999"
    and "valid_date s"
  shows "str_less (sqlite_date s) (strftime_date t) \<longleftrightarrow> date_before s t"
proof -
  from threshold_datetime_valid[OF assms(1)] have "ts_month t < 100" "ts_day t < 100" by auto
  moreover from assms(4) have "ts_year s \<le> 9999" "ts_month s < 100" "ts_day s < 100"
    by (auto simp: valid_date_def)
  ultimately show ?thesis
    using sqlite_date_order[of s t] assms(2,3) by (simp add: strftime_four_digit_year)
qed

lemma clear_old_data_not_confirmed:
  "inputs = [] \<or> py_lower (hd inputs) \<noteq> ''yes'' \<Longrightarrow> table (clear_old_data now days inputs db) = db"
  by (cases inputs) (auto simp: clear_old_data_def Let_def split: sum.splits list.splits)

lemma clear_old_data_confirmed:
  assumes "date_threshold now days = Inr thr" "py_lower confirm = ''yes''"
  shows "table (clear_old_data now days (confirm # rest) db) =
           filter (\<lambda>r. \<not> str_less (sqlite_date (r_timestamp r)) thr) db \<and>
         raised (clear_old_data now days (confirm # rest) db) = None"
proof -
  have f: "filter (\<lambda>r. str_less (sqlite_date (r_timestamp r)) thr) db = [] \<Longrightarrow>
           filter (\<lambda>r. \<not> str_less (sqlite_date (r_timestamp r)) thr) db = db"
    by (auto simp: filter_empty_conv filter_id_conv)
  show ?thesis using assms f by (auto simp: clear_old_data_def Let_def)
qed

lemma clear_old_data_none_counted:
  "date_threshold now days = Inr thr \<Longrightarrow>
   filter (\<lambda>r. str_less (sqlite_date (r_timestamp r)) thr) db = [] \<Longrightarrow>
   clear_old_data now days inputs db = \<lparr>table = db, inputs_left = inputs, raised = None\<rparr>"
  by (simp add: clear_old_data_def)

lemma sql_limit_take: "sql_limit n xs = (if n < 0 then xs else take (nat n) xs)"
  by (simp add: sql_limit_def)

lemma digit_chars:
  "(char_of (48::nat) :: char) = CHR ''0''" "(char_of (49::nat) :: char) = CHR ''1''"
  "(char_of (50::nat) :: char) = CHR ''2''" "(char_of (51::nat) :: char) = CHR ''3''"
  "(char_of (52::nat) :: char) = CHR ''4''" "(char_of (53::nat) :: char) = CHR ''5''"
  "(char_of (54::nat) :: char) = CHR ''6''" "(char_of (55::nat) :: char) = CHR ''7''"
  "(char_of (56::nat) :: char) = CHR ''8''" "(char_of (57::nat) :: char) = CHR ''9''"
  by code_simp+

lemma pad_digits_2: "pad_digits 2 n = [char_of (48 + n div 10 mod 10), char_of (48 + n mod 10)]"
proof -
  have s: "pad_digits 2 n = pad_digits (Suc (Suc 0)) n" by (simp only: numeral_2_eq_2)
  show ?thesis unfolding s
    by (subst pad_digits.simps, subst pad_digits.simps, subst pad_digits.simps) simp
qed

lemma pad_digits_4:
  "pad_digits 4 n = [char_of (48 + n div 10 div 10 div 10 mod 10), char_of (48 + n div 10 div 10 mod 10),
      char_of (48 + n div 10 mod 10), char_of (48 + n mod 10)]"
proof -
  have s: "pad_digits 4 n = pad_digits (Suc (Suc (Suc (Suc 0)))) n"
    by (simp only: numeral_eq_Suc pred_numeral_simps numeral_One Suc_numeral arith_simps One_nat_def)
  show ?thesis unfolding s
    by (subst pad_digits.simps, subst pad_digits.simps, subst pad_digits.simps,
        subst pad_digits.simps, subst pad_digits.simps) simp
qed


lemma ymd2ord_2026_11_4: "ymd2ord 2026 11 4 = 739924"
  by (simp add: ymd2ord_def days_before_year_def DAYS_BEFORE_MONTH_def is_leap_def)

lemma ord2ymd_739834: "ord2ymd 739834 = (2026, 8, 6)"
  by (simp add: ord2ymd_def month_day_def DAYS_BEFORE_MONTH_def DAYS_IN_MONTH_def Let_def)

lemma ord2ymd_339924: "ord2ymd 339924 = (931, 9, 6)"
  by (simp add: ord2ymd_def month_day_def DAYS_BEFORE_MONTH_def DAYS_IN_MONTH_def Let_def)

lemma ord2ymd_739917: "ord2ymd 739917 = (2026, 10, 28)"
  by (simp add: ord2ymd_def month_day_def DAYS_BEFORE_MONTH_def DAYS_IN_MONTH_def Let_def)

lemma ord2ymd_739894: "ord2ymd 739894 = (2026, 10, 5)"
  by (simp add: ord2ymd_def month_day_def DAYS_BEFORE_MONTH_def DAYS_IN_MONTH_def Let_def)

lemma digits_of_931: "digits_of 931 = ''931''"
  by code_simp

lemma digits_of_2026: "digits_of 2026 = ''2026''"
  by code_simp

text \<open>
  C9 (as amended). Let the threshold date, \<open>days\<close> days before today, lie in the years
  1000 to 9999 and the stored timestamps be calendar dates. The rows the purge deletes
  are those dated before the threshold, the rows the CSV export (and
  \<open>get_historical_trends\<close>) returns are those dated on or after it: the two are disjoint
  and together make up the table, and a row dated on the threshold day survives the
  purge and is exported. The recent-trends read returns the exported rows in descending
  order of volume plus engagement, cut to the first \<open>limit\<close> of them when the limit is
  not negative.
\<close>

theorem purge_and_reads_partition:
  assumes "threshold_datetime now days = Inr t" and "1000 \<le> ts_year t" and "ts_year t \<le> 9999"
    and "\<forall>r \<in> set db. valid_date (r_timestamp r)"
  shows "\<exists>kept. export_rows now days db = Inr kept \<and>
     get_historical_trends now days db = Inr kept \<and>
     mset db - mset (table (clear_old_data now days (''yes'' # rest) db)) =
       filter_mset (\<lambda>r. date_before (r_timestamp r) t) (mset db) \<and>
     mset kept = filter_mset (\<lambda>r. \<not> date_before (r_timestamp r) t) (mset db) \<and>
     filter_mset (\<lambda>r. date_before (r_timestamp r) t) (mset db) + mset kept = mset db \<and>
     filter_mset (\<lambda>r. date_before (r_timestamp r) t) (mset db) \<inter># mset kept = {#} \<and>
     (\<forall>r \<in> set db.
        ts_year (r_timestamp r) = ts_year t \<and> ts_month (r_timestamp r) = ts_month t \<and>
        ts_day (r_timestamp r) = ts_day t \<longrightarrow>
        r \<in> set kept \<and> r \<in> set (table (clear_old_data now days (''yes'' # rest) db))) \<and>
     (\<forall>limit. - (2 ^ 63) \<le> limit \<and> limit < 2 ^ 63 \<longrightarrow>
        (\<exists>ranked. mset ranked = mset kept \<and>
           sorted_wrt (\<lambda>a b. combined b \<le> combined a) ranked \<and>
           view_recent_trends now days limit db =
             Inr (if limit < 0 then ranked else take (nat limit) ranked)))"
proof -
  let ?thr = "strftime_date t"
  let ?old = "\<lambda>r. date_before (r_timestamp r) t"
  let ?new = "\<lambda>r. \<not> date_before (r_timestamp r) t"
  let ?kept = "sort_key (\<lambda>r. - ts_key (r_timestamp r)) (filter ?new db)"
  let ?ranked = "sort_key (\<lambda>r. - combined r) (filter ?new db)"
  have thr: "date_threshold now days = Inr ?thr" using assms(1) by (rule date_threshold_text)
  have y: "py_lower ''yes'' = ''yes''" by code_simp
  have cmp: "\<And>r. r \<in> set db \<Longrightarrow>
      str_less (sqlite_date (r_timestamp r)) ?thr \<longleftrightarrow> date_before (r_timestamp r) t"
    using older_text_iff_date_before[OF assms(1,2,3)] assms(4) by blast
  have sel: "filter (\<lambda>r. \<not> str_less (sqlite_date (r_timestamp r)) ?thr) db = filter ?new db"
    using cmp by (intro filter_cong) auto
  have tb: "table (clear_old_data now days (''yes'' # rest) db) = filter ?new db"
    using clear_old_data_confirmed[OF thr y] sel by simp
  have e: "export_rows now days db = Inr ?kept" using thr sel by (simp add: export_rows_def)
  have g: "get_historical_trends now days db = Inr ?kept"
    using thr sel by (simp add: get_historical_trends_def)
  have part: "filter_mset ?old (mset db) + filter_mset ?new (mset db) = mset db"
    using multiset_partition[of "mset db" ?old] by simp
  have del: "mset db - mset (filter ?new db) = filter_mset ?old (mset db)"
    using part by (metis add_diff_cancel_right' mset_filter)
  have k: "mset ?kept = filter_mset ?new (mset db)" by simp
  have dis: "filter_mset ?old (mset db) \<inter># filter_mset ?new (mset db) = {#}"
    by (auto simp: multiset_eq_iff)
  have edge: "\<forall>r \<in> set db.
        ts_year (r_timestamp r) = ts_year t \<and> ts_month (r_timestamp r) = ts_month t \<and>
        ts_day (r_timestamp r) = ts_day t \<longrightarrow>
        r \<in> set ?kept \<and> r \<in> set (filter ?new db)"
    by (auto simp: date_before_def)
  have view: "\<forall>limit. - (2 ^ 63) \<le> limit \<and> limit < 2 ^ 63 \<longrightarrow>
        (\<exists>ranked. mset ranked = mset ?kept \<and>
           sorted_wrt (\<lambda>a b. combined b \<le> combined a) ranked \<and>
           view_recent_trends now days limit db =
             Inr (if limit < 0 then ranked else take (nat limit) ranked))"
  proof (intro allI impI)
    fix limit :: int
    assume b: "- (2 ^ 63) \<le> limit \<and> limit < 2 ^ 63"
    have v: "view_recent_trends now days limit db =
        Inr (if limit < 0 then ?ranked else take (nat limit) ?ranked)"
      using thr sel b by (simp add: view_recent_trends_def sql_limit_take)
    have m: "mset ?ranked = mset ?kept" by simp
    have "sorted (map (\<lambda>r. - combined r) ?ranked)" by (rule sorted_sort_key)
    then have s: "sorted_wrt (\<lambda>a b. combined b \<le> combined a) ?ranked"
      by (simp add: sorted_map)
    from m s v show "\<exists>ranked. mset ranked = mset ?kept \<and>
           sorted_wrt (\<lambda>a b. combined b \<le> combined a) ranked \<and>
           view_recent_trends now days limit db =
             Inr (if limit < 0 then ranked else take (nat limit) ranked)" by blast
  qed
  have part2: "filter_mset ?old (mset db) + mset ?kept = mset db" using part k by simp
  have dis2: "filter_mset ?old (mset db) \<inter># mset ?kept = {#}" using dis k by simp
  show ?thesis
    unfolding tb
    by (rule exI[of _ ?kept]) (intro conjI e g del k part2 dis2 edge view)
qed

theorem purge_and_reads_partition_witness:
  "export_rows \<lparr>ts_year = 2026, ts_month = 11, ts_day = 4, secs = 36000\<rparr> 90 [\<lparr>r_keyword = ''a'', r_platform = ''Reddit'', r_category = ''SEO & SEM'', r_volume = 1,
       r_sentiment_score = 0, r_engagement_score = 0,
       r_timestamp = \<lparr>ts_year = 2026, ts_month = 7, ts_day = 27, secs = 0\<rparr>, r_metadata = []\<rparr>, \<lparr>r_keyword = ''b'', r_platform = ''Reddit'', r_category = ''SEO & SEM'', r_volume = 1,
       r_sentiment_score = 0, r_engagement_score = 0,
       r_timestamp = \<lparr>ts_year = 2026, ts_month = 8, ts_day = 6, secs = 0\<rparr>, r_metadata = []\<rparr>] = Inr [\<lparr>r_keyword = ''b'', r_platform = ''Reddit'', r_category = ''SEO & SEM'', r_volume = 1,
       r_sentiment_score = 0, r_engagement_score = 0,
       r_timestamp = \<lparr>ts_year = 2026, ts_month = 8, ts_day = 6, secs = 0\<rparr>, r_metadata = []\<rparr>] \<and>
   table (clear_old_data \<lparr>ts_year = 2026, ts_month = 11, ts_day = 4, secs = 36000\<rparr> 90 [''yes''] [\<lparr>r_keyword = ''a'', r_platform = ''Reddit'', r_category = ''SEO & SEM'', r_volume = 1,
       r_sentiment_score = 0, r_engagement_score = 0,
       r_timestamp = \<lparr>ts_year = 2026, ts_month = 7, ts_day = 27, secs = 0\<rparr>, r_metadata = []\<rparr>, \<lparr>r_keyword = ''b'', r_platform = ''Reddit'', r_category = ''SEO & SEM'', r_volume = 1,
       r_sentiment_score = 0, r_engagement_score = 0,
       r_timestamp = \<lparr>ts_year = 2026, ts_month = 8, ts_day = 6, secs = 0\<rparr>, r_metadata = []\<rparr>]) = [\<lparr>r_keyword = ''b'', r_platform = ''Reddit'', r_category = ''SEO & SEM'', r_volume = 1,
       r_sentiment_score = 0, r_engagement_score = 0,
       r_timestamp = \<lparr>ts_year = 2026, ts_month = 8, ts_day = 6, secs = 0\<rparr>, r_metadata = []\<rparr>] \<and>
   view_recent_trends \<lparr>ts_year = 2026, ts_month = 11, ts_day = 4, secs = 36000\<rparr> 90 50 [\<lparr>r_keyword = ''a'', r_platform = ''Reddit'', r_category = ''SEO & SEM'', r_volume = 1,
       r_sentiment_score = 0, r_engagement_score = 0,
       r_timestamp = \<lparr>ts_year = 2026, ts_month = 7, ts_day = 27, secs = 0\<rparr>, r_metadata = []\<rparr>, \<lparr>r_keyword = ''b'', r_platform = ''Reddit'', r_category = ''SEO & SEM'', r_volume = 1,
       r_sentiment_score = 0, r_engagement_score = 0,
       r_timestamp = \<lparr>ts_year = 2026, ts_month = 8, ts_day = 6, secs = 0\<rparr>, r_metadata = []\<rparr>] = Inr [\<lparr>r_keyword = ''b'', r_platform = ''Reddit'', r_category = ''SEO & SEM'', r_volume = 1,
       r_sentiment_score = 0, r_engagement_score = 0,
       r_timestamp = \<lparr>ts_year = 2026, ts_month = 8, ts_day = 6, secs = 0\<rparr>, r_metadata = []\<rparr>]"
proof -
  define old where "old = \<lparr>r_keyword = ''a'', r_platform = ''Reddit'', r_category = ''SEO & SEM'', r_volume = 1,
       r_sentiment_score = 0, r_engagement_score = 0,
       r_timestamp = \<lparr>ts_year = 2026, ts_month = 7, ts_day = 27, secs = 0\<rparr>, r_metadata = []\<rparr>"
  define new where "new = \<lparr>r_keyword = ''b'', r_platform = ''Reddit'', r_category = ''SEO & SEM'', r_volume = 1,
       r_sentiment_score = 0, r_engagement_score = 0,
       r_timestamp = \<lparr>ts_year = 2026, ts_month = 8, ts_day = 6, secs = 0\<rparr>, r_metadata = []\<rparr>"
  define now where "now = \<lparr>ts_year = 2026, ts_month = 11, ts_day = 4, secs = 36000\<rparr>"
  define t where "t = \<lparr>ts_year = 2026, ts_month = 8, ts_day = 6, secs = 36000\<rparr>"
  have d: "threshold_datetime now 90 = Inr t" unfolding now_def t_def
    by (simp add: threshold_datetime_def ymd2ord_2026_11_4 ord2ymd_739834)
  have y1: "1000 \<le> ts_year t" and y2: "ts_year t \<le> 9999" by (simp_all add: t_def)
  have v: "\<forall>r \<in> set [old, new]. valid_date (r_timestamp r)"
    by (simp add: old_def new_def valid_date_def)
  have bo: "date_before (r_timestamp old) t" by (simp add: old_def t_def date_before_def)
  have bn: "\<not> date_before (r_timestamp new) t" by (simp add: new_def t_def date_before_def)
  from purge_and_reads_partition[OF d y1 y2 v, of "[]"] obtain kept where
    e: "export_rows now 90 [old, new] = Inr kept"
    and tb: "mset [old, new] - mset (table (clear_old_data now 90 [''yes''] [old, new])) =
       filter_mset (\<lambda>r. date_before (r_timestamp r) t) (mset [old, new])"
    and k: "mset kept = filter_mset (\<lambda>r. \<not> date_before (r_timestamp r) t) (mset [old, new])"
    and vw: "\<forall>limit. - (2 ^ 63) \<le> limit \<and> limit < 2 ^ 63 \<longrightarrow>
        (\<exists>ranked. mset ranked = mset kept \<and>
           sorted_wrt (\<lambda>a b. combined b \<le> combined a) ranked \<and>
           view_recent_trends now 90 limit [old, new] =
             Inr (if limit < 0 then ranked else take (nat limit) ranked))"
    by blast
  have km: "mset kept = {#new#}" using k bo bn by simp
  then have kept: "kept = [new]" by (metis mset_single_iff_right)
  have thr: "date_threshold now 90 = Inr (strftime_date t)" using d by (rule date_threshold_text)
  have c1: "str_less (sqlite_date (r_timestamp old)) (strftime_date t)"
    using older_text_iff_date_before[OF d y1 y2] v bo by simp
  have c2: "\<not> str_less (sqlite_date (r_timestamp new)) (strftime_date t)"
    using older_text_iff_date_before[OF d y1 y2] v bn by simp
  have y: "py_lower ''yes'' = ''yes''" by code_simp
  have tbl: "table (clear_old_data now 90 [''yes''] [old, new]) = [new]"
    using clear_old_data_confirmed[OF thr y, of "[]" "[old, new]"] c1 c2 by simp
  have b50: "- (2 ^ 63) \<le> (50::int) \<and> (50::int) < 2 ^ 63" by simp
  from vw[rule_format, OF b50] obtain ranked where r: "mset ranked = mset kept"
      "view_recent_trends now 90 50 [old, new] =
         Inr (if (50::int) < 0 then ranked else take (nat 50) ranked)" by blast
  from r(1) kept have "ranked = [new]" by (metis mset_single_iff_right mset.simps(1,2))
  with r(2) have vr: "view_recent_trends now 90 50 [old, new] = Inr [new]" by simp
  show ?thesis using e kept tbl vr unfolding old_def new_def now_def by simp
qed

text \<open>
  Read literally, the recent-trends read would cover every row the purge keeps; with
  the limit 1 and two rows on the threshold day it returns one of them only.
\<close>

theorem reads_cover_counterexample:
  "date_threshold \<lparr>ts_year = 2026, ts_month = 11, ts_day = 4, secs = 36000\<rparr> 90 = Inr ''2026-08-06'' \<and>
   table (clear_old_data \<lparr>ts_year = 2026, ts_month = 11, ts_day = 4, secs = 36000\<rparr> 90 [''yes''] [\<lparr>r_keyword = ''b'', r_platform = ''Reddit'', r_category = ''SEO & SEM'', r_volume = 1,
       r_sentiment_score = 0, r_engagement_score = 0,
       r_timestamp = \<lparr>ts_year = 2026, ts_month = 8, ts_day = 6, secs = 0\<rparr>, r_metadata = []\<rparr>, \<lparr>r_keyword = ''c'', r_platform = ''Reddit'', r_category = ''SEO & SEM'', r_volume = 1,
       r_sentiment_score = 0, r_engagement_score = 0,
       r_timestamp = \<lparr>ts_year = 2026, ts_month = 8, ts_day = 6, secs = 0\<rparr>, r_metadata = []\<rparr>]) = [\<lparr>r_keyword = ''b'', r_platform = ''Reddit'', r_category = ''SEO & SEM'', r_volume = 1,
       r_sentiment_score = 0, r_engagement_score = 0,
       r_timestamp = \<lparr>ts_year = 2026, ts_month = 8, ts_day = 6, secs = 0\<rparr>, r_metadata = []\<rparr>, \<lparr>r_keyword = ''c'', r_platform = ''Reddit'', r_category = ''SEO & SEM'', r_volume = 1,
       r_sentiment_score = 0, r_engagement_score = 0,
       r_timestamp = \<lparr>ts_year = 2026, ts_month = 8, ts_day = 6, secs = 0\<rparr>, r_metadata = []\<rparr>] \<and>
   export_rows \<lparr>ts_year = 2026, ts_month = 11, ts_day = 4, secs = 36000\<rparr> 90 [\<lparr>r_keyword = ''b'', r_platform = ''Reddit'', r_category = ''SEO & SEM'', r_volume = 1,
       r_sentiment_score = 0, r_engagement_score = 0,
       r_timestamp = \<lparr>ts_year = 2026, ts_month = 8, ts_day = 6, secs = 0\<rparr>, r_metadata = []\<rparr>, \<lparr>r_keyword = ''c'', r_platform = ''Reddit'', r_category = ''SEO & SEM'', r_volume = 1,
       r_sentiment_score = 0, r_engagement_score = 0,
       r_timestamp = \<lparr>ts_year = 2026, ts_month = 8, ts_day = 6, secs = 0\<rparr>, r_metadata = []\<rparr>] = Inr [\<lparr>r_keyword = ''b'', r_platform = ''Reddit'', r_category = ''SEO & SEM'', r_volume = 1,
       r_sentiment_score = 0, r_engagement_score = 0,
       r_timestamp = \<lparr>ts_year = 2026, ts_month = 8, ts_day = 6, secs = 0\<rparr>, r_metadata = []\<rparr>, \<lparr>r_keyword = ''c'', r_platform = ''Reddit'', r_category = ''SEO & SEM'', r_volume = 1,
       r_sentiment_score = 0, r_engagement_score = 0,
       r_timestamp = \<lparr>ts_year = 2026, ts_month = 8, ts_day = 6, secs = 0\<rparr>, r_metadata = []\<rparr>] \<and>
   view_recent_trends \<lparr>ts_year = 2026, ts_month = 11, ts_day = 4, secs = 36000\<rparr> 90 1 [\<lparr>r_keyword = ''b'', r_platform = ''Reddit'', r_category = ''SEO & SEM'', r_volume = 1,
       r_sentiment_score = 0, r_engagement_score = 0,
       r_timestamp = \<lparr>ts_year = 2026, ts_month = 8, ts_day = 6, secs = 0\<rparr>, r_metadata = []\<rparr>, \<lparr>r_keyword = ''c'', r_platform = ''Reddit'', r_category = ''SEO & SEM'', r_volume = 1,
       r_sentiment_score = 0, r_engagement_score = 0,
       r_timestamp = \<lparr>ts_year = 2026, ts_month = 8, ts_day = 6, secs = 0\<rparr>, r_metadata = []\<rparr>] = Inr [\<lparr>r_keyword = ''b'', r_platform = ''Reddit'', r_category = ''SEO & SEM'', r_volume = 1,
       r_sentiment_score = 0, r_engagement_score = 0,
       r_timestamp = \<lparr>ts_year = 2026, ts_month = 8, ts_day = 6, secs = 0\<rparr>, r_metadata = []\<rparr>] \<and>
   sqlite_date (r_timestamp \<lparr>r_keyword = ''c'', r_platform = ''Reddit'', r_category = ''SEO & SEM'', r_volume = 1,
       r_sentiment_score = 0, r_engagement_score = 0,
       r_timestamp = \<lparr>ts_year = 2026, ts_month = 8, ts_day = 6, secs = 0\<rparr>, r_metadata = []\<rparr>) = ''2026-08-06'' \<and>
   \<lparr>r_keyword = ''c'', r_platform = ''Reddit'', r_category = ''SEO & SEM'', r_volume = 1,
       r_sentiment_score = 0, r_engagement_score = 0,
       r_timestamp = \<lparr>ts_year = 2026, ts_month = 8, ts_day = 6, secs = 0\<rparr>, r_metadata = []\<rparr> \<notin> set [\<lparr>r_keyword = ''b'', r_platform = ''Reddit'', r_category = ''SEO & SEM'', r_volume = 1,
       r_sentiment_score = 0, r_engagement_score = 0,
       r_timestamp = \<lparr>ts_year = 2026, ts_month = 8, ts_day = 6, secs = 0\<rparr>, r_metadata = []\<rparr>]"
proof -
  define new where "new = \<lparr>r_keyword = ''b'', r_platform = ''Reddit'', r_category = ''SEO & SEM'', r_volume = 1,
       r_sentiment_score = 0, r_engagement_score = 0,
       r_timestamp = \<lparr>ts_year = 2026, ts_month = 8, ts_day = 6, secs = 0\<rparr>, r_metadata = []\<rparr>"
  define new2 where "new2 = \<lparr>r_keyword = ''c'', r_platform = ''Reddit'', r_category = ''SEO & SEM'', r_volume = 1,
       r_sentiment_score = 0, r_engagement_score = 0,
       r_timestamp = \<lparr>ts_year = 2026, ts_month = 8, ts_day = 6, secs = 0\<rparr>, r_metadata = []\<rparr>"
  define now where "now = \<lparr>ts_year = 2026, ts_month = 11, ts_day = 4, secs = 36000\<rparr>"
  have thr: "date_threshold now 90 = Inr ''2026-08-06''" unfolding now_def
    by (simp add: date_threshold_def threshold_datetime_def ymd2ord_2026_11_4 ord2ymd_739834
        strftime_date_def digits_of_2026 pad_digits_2 digit_chars)
  have s1: "sqlite_date (r_timestamp new) = ''2026-08-06''" unfolding new_def
    by (simp add: sqlite_date_def pad_digits_2 pad_digits_4 digit_chars)
  have s2: "sqlite_date (r_timestamp new2) = ''2026-08-06''" unfolding new2_def
    by (simp add: sqlite_date_def pad_digits_2 pad_digits_4 digit_chars)
  have nl: "\<not> str_less ''2026-08-06'' ''2026-08-06''" by (rule str_less_irrefl)
  have y: "py_lower ''yes'' = ''yes''" by code_simp
  have tbl: "table (clear_old_data now 90 [''yes''] [new, new2]) = [new, new2]"
    using clear_old_data_confirmed[OF thr y, of "[]" "[new, new2]"] s1 s2 nl by simp
  have k: "ts_key (r_timestamp new) = ts_key (r_timestamp new2)"
    by (simp add: new_def new2_def ts_key_def)
  have e: "export_rows now 90 [new, new2] = Inr [new, new2]"
    using thr s1 s2 nl k by (simp add: export_rows_def)
  have c: "combined new = combined new2" by (simp add: new_def new2_def combined_def)
  have vr: "view_recent_trends now 90 1 [new, new2] = Inr [new]"
    using thr s1 s2 nl c by (simp add: view_recent_trends_def sql_limit_def)
  have ne: "new2 \<notin> set [new]" by (simp add: new_def new2_def)
  show ?thesis using thr tbl e vr s2 ne unfolding new_def new2_def now_def by simp
qed

text \<open>
  Where the threshold year has four digits the two date texts have one shape, and the
  purge behaves by calendar dates: confirmed, it keeps exactly the rows not dated before
  the threshold; with no such row it returns at once.
\<close>

lemma clear_old_data_four_digit_year:
  assumes "threshold_datetime now days = Inr t" "1000 \<le> ts_year t" "ts_year t \<le> 9999"
    and "\<forall>r \<in> set db. valid_date (r_timestamp r)" and "py_lower confirm = ''yes''"
  shows "table (clear_old_data now days (confirm # rest) db) =
           filter (\<lambda>r. \<not> date_before (r_timestamp r) t) db"
proof -
  have thr: "date_threshold now days = Inr (strftime_date t)"
    using assms(1) by (rule date_threshold_text)
  have "filter (\<lambda>r. \<not> str_less (sqlite_date (r_timestamp r)) (strftime_date t)) db =
        filter (\<lambda>r. \<not> date_before (r_timestamp r) t) db"
    using older_text_iff_date_before[OF assms(1,2,3)] assms(4) by (intro filter_cong) auto
  then show ?thesis using clear_old_data_confirmed[OF thr assms(5)] by simp
qed

lemma clear_old_data_no_older_row_four_digit_year:
  assumes "threshold_datetime now days = Inr t" "1000 \<le> ts_year t" "ts_year t \<le> 9999"
    and "\<forall>r \<in> set db. valid_date (r_timestamp r)"
    and "\<forall>r \<in> set db. \<not> date_before (r_timestamp r) t"
  shows "clear_old_data now days inputs db = \<lparr>table = db, inputs_left = inputs, raised = None\<rparr>"
proof -
  have thr: "date_threshold now days = Inr (strftime_date t)"
    using assms(1) by (rule date_threshold_text)
  have "filter (\<lambda>r. str_less (sqlite_date (r_timestamp r)) (strftime_date t)) db = []"
    using older_text_iff_date_before[OF assms(1,2,3)] assms(4,5) by (auto simp: filter_empty_conv)
  then show ?thesis using clear_old_data_none_counted[OF thr] by simp
qed

text \<open>
  C4 (the code at a failing input). On 2026-11-04 with \<open>days = 400000\<close> the threshold
  date is 0931-09-06, written \<open>931-09-06\<close>. A row of 2026-11-01 is not dated before
  it, yet its date text \<open>2026-11-01\<close> is below the threshold text, and the purge
  confirmed with \<open>yes\<close> deletes it.
\<close>

theorem clear_old_data_deletes_newer_row:
  "threshold_datetime \<lparr>ts_year = 2026, ts_month = 11, ts_day = 4, secs = 36000\<rparr> 400000 = Inr \<lparr>ts_year = 931, ts_month = 9, ts_day = 6, secs = 36000\<rparr> \<and>
   date_threshold \<lparr>ts_year = 2026, ts_month = 11, ts_day = 4, secs = 36000\<rparr> 400000 = Inr ''931-09-06'' \<and>
   sqlite_date (r_timestamp \<lparr>r_keyword = ''seo'', r_platform = ''Reddit'', r_category = ''SEO & SEM'', r_volume = 5,
       r_sentiment_score = 0, r_engagement_score = 0,
       r_timestamp = \<lparr>ts_year = 2026, ts_month = 11, ts_day = 1, secs = 0\<rparr>, r_metadata = []\<rparr>) = ''2026-11-01'' \<and>
   \<not> date_before (r_timestamp \<lparr>r_keyword = ''seo'', r_platform = ''Reddit'', r_category = ''SEO & SEM'', r_volume = 5,
       r_sentiment_score = 0, r_engagement_score = 0,
       r_timestamp = \<lparr>ts_year = 2026, ts_month = 11, ts_day = 1, secs = 0\<rparr>, r_metadata = []\<rparr>) \<lparr>ts_year = 931, ts_month = 9, ts_day = 6, secs = 36000\<rparr> \<and>
   table (clear_old_data \<lparr>ts_year = 2026, ts_month = 11, ts_day = 4, secs = 36000\<rparr> 400000 [''yes''] [\<lparr>r_keyword = ''seo'', r_platform = ''Reddit'', r_category = ''SEO & SEM'', r_volume = 5,
       r_sentiment_score = 0, r_engagement_score = 0,
       r_timestamp = \<lparr>ts_year = 2026, ts_month = 11, ts_day = 1, secs = 0\<rparr>, r_metadata = []\<rparr>]) = []"
proof -
  define row where "row = \<lparr>r_keyword = ''seo'', r_platform = ''Reddit'', r_category = ''SEO & SEM'', r_volume = 5,
       r_sentiment_score = 0, r_engagement_score = 0,
       r_timestamp = \<lparr>ts_year = 2026, ts_month = 11, ts_day = 1, secs = 0\<rparr>, r_metadata = []\<rparr>"
  define now where "now = \<lparr>ts_year = 2026, ts_month = 11, ts_day = 4, secs = 36000\<rparr>"
  have td: "threshold_datetime now 400000 = Inr \<lparr>ts_year = 931, ts_month = 9, ts_day = 6, secs = 36000\<rparr>" unfolding now_def
    by (simp add: threshold_datetime_def ymd2ord_2026_11_4 ord2ymd_339924)
  have thr: "date_threshold now 400000 = Inr ''931-09-06''" unfolding now_def
    by (simp add: date_threshold_def threshold_datetime_def ymd2ord_2026_11_4 ord2ymd_339924
        strftime_date_def digits_of_931 pad_digits_2 digit_chars)
  have s: "sqlite_date (r_timestamp row) = ''2026-11-01''" unfolding row_def
    by (simp add: sqlite_date_def pad_digits_2 pad_digits_4 digit_chars)
  have l: "str_less ''2026-11-01'' ''931-09-06''" by simp
  have nb: "\<not> date_before (r_timestamp row) \<lparr>ts_year = 931, ts_month = 9, ts_day = 6, secs = 36000\<rparr>"
    by (simp add: row_def date_before_def)
  have y: "py_lower ''yes'' = ''yes''" by code_simp
  have tbl: "table (clear_old_data now 400000 [''yes''] [row]) = []"
    using clear_old_data_confirmed[OF thr y, of "[]" "[row]"] s l by simp
  show ?thesis using td thr s nb tbl unfolding row_def now_def by simp
qed

text \<open>
  C10 (the code at a failing input). On 2026-11-04 with \<open>days = 400000\<close> no row is
  dated before the threshold 0931-09-06, yet the purge counts the row of 2026-11-01,
  reads a confirmation line, and deletes the row when the line is \<open>yes\<close>.
\<close>

theorem clear_old_data_prompts_without_older_row:
  "date_threshold \<lparr>ts_year = 2026, ts_month = 11, ts_day = 4, secs = 36000\<rparr> 400000 = Inr ''931-09-06'' \<and>
   filter (\<lambda>r. date_before (r_timestamp r) \<lparr>ts_year = 931, ts_month = 9, ts_day = 6, secs = 36000\<rparr>) [\<lparr>r_keyword = ''seo'', r_platform = ''Reddit'', r_category = ''SEO & SEM'', r_volume = 5,
       r_sentiment_score = 0, r_engagement_score = 0,
       r_timestamp = \<lparr>ts_year = 2026, ts_month = 11, ts_day = 1, secs = 0\<rparr>, r_metadata = []\<rparr>] = [] \<and>
   clear_old_data \<lparr>ts_year = 2026, ts_month = 11, ts_day = 4, secs = 36000\<rparr> 400000 [''no'', ''8''] [\<lparr>r_keyword = ''seo'', r_platform = ''Reddit'', r_category = ''SEO & SEM'', r_volume = 5,
       r_sentiment_score = 0, r_engagement_score = 0,
       r_timestamp = \<lparr>ts_year = 2026, ts_month = 11, ts_day = 1, secs = 0\<rparr>, r_metadata = []\<rparr>] =
     \<lparr>table = [\<lparr>r_keyword = ''seo'', r_platform = ''Reddit'', r_category = ''SEO & SEM'', r_volume = 5,
       r_sentiment_score = 0, r_engagement_score = 0,
       r_timestamp = \<lparr>ts_year = 2026, ts_month = 11, ts_day = 1, secs = 0\<rparr>, r_metadata = []\<rparr>], inputs_left = [''8''], raised = None\<rparr> \<and>
   clear_old_data \<lparr>ts_year = 2026, ts_month = 11, ts_day = 4, secs = 36000\<rparr> 400000 [''yes'', ''8''] [\<lparr>r_keyword = ''seo'', r_platform = ''Reddit'', r_category = ''SEO & SEM'', r_volume = 5,
       r_sentiment_score = 0, r_engagement_score = 0,
       r_timestamp = \<lparr>ts_year = 2026, ts_month = 11, ts_day = 1, secs = 0\<rparr>, r_metadata = []\<rparr>] =
     \<lparr>table = [], inputs_left = [''8''], raised = None\<rparr>"
proof -
  define row where "row = \<lparr>r_keyword = ''seo'', r_platform = ''Reddit'', r_category = ''SEO & SEM'', r_volume = 5,
       r_sentiment_score = 0, r_engagement_score = 0,
       r_timestamp = \<lparr>ts_year = 2026, ts_month = 11, ts_day = 1, secs = 0\<rparr>, r_metadata = []\<rparr>"
  define now where "now = \<lparr>ts_year = 2026, ts_month = 11, ts_day = 4, secs = 36000\<rparr>"
  have thr: "date_threshold now 400000 = Inr ''931-09-06''" unfolding now_def
    by (simp add: date_threshold_def threshold_datetime_def ymd2ord_2026_11_4 ord2ymd_339924
        strftime_date_def digits_of_931 pad_digits_2 digit_chars)
  have s: "sqlite_date (r_timestamp row) = ''2026-11-01''" unfolding row_def
    by (simp add: sqlite_date_def pad_digits_2 pad_digits_4 digit_chars)
  have l: "str_less ''2026-11-01'' ''931-09-06''" by simp
  have nb: "filter (\<lambda>r. date_before (r_timestamp r) \<lparr>ts_year = 931, ts_month = 9, ts_day = 6, secs = 36000\<rparr>) [row] = []"
    by (simp add: row_def date_before_def)
  have y: "py_lower ''yes'' = ''yes''" by code_simp
  have n: "py_lower ''no'' \<noteq> ''yes''" by code_simp
  have c1: "clear_old_data now 400000 [''no'', ''8''] [row] =
     \<lparr>table = [row], inputs_left = [''8''], raised = None\<rparr>"
    using thr s l n by (simp add: clear_old_data_def)
  have c2: "clear_old_data now 400000 [''yes'', ''8''] [row] =
     \<lparr>table = [], inputs_left = [''8''], raised = None\<rparr>"
    using thr s l y by (simp add: clear_old_data_def)
  show ?thesis using thr nb c1 c2 unfolding row_def now_def by simp
qed

section \<open>Properties of the extraction pass\<close>

lemma analyze_sentiment_returns: "\<exists>s. analyze_sentiment g t = Inr s"
  by (simp add: analyze_sentiment_def split: sum.splits)

lemma process_trend_returns:
  "\<exists>t. process_trend g trend = Inr t \<and> keyword t = keyword trend \<and> platform t = platform trend \<and>
     volume t = volume trend \<and>
     category t = Some (categorize CATEGORIES (keyword trend)) \<and>
     engagement_score t =
       (case engagement_score trend of
          None \<Rightarrow> Some (of_int (case volume trend of None \<Rightarrow> 0 | Some v \<Rightarrow> v))
        | Some e \<Rightarrow> Some e)"
proof -
  obtain s where s: "analyze_sentiment g (keyword trend) = Inr s"
    using analyze_sentiment_returns by blast
  show ?thesis
    by (cases "sentiment_score trend"; cases "engagement_score trend")
       (simp_all add: process_trend_def Let_def s)
qed

lemma save_trend_row:
  "save_trend now db t = db @ [r] \<Longrightarrow>
     r_keyword r = keyword t \<and> r_platform r = platform t \<and>
     r_volume r = (case volume t of None \<Rightarrow> 0 | Some v \<Rightarrow> v) \<and>
     r_engagement_score r = (case engagement_score t of None \<Rightarrow> 0 | Some e \<Rightarrow> e) \<and>
     r_category r = (case category t of None \<Rightarrow> ''Uncategorized'' | Some c \<Rightarrow> c)"
  by (auto simp: save_trend_def)

lemma save_trend_append: "\<exists>r. save_trend now db t = db @ [r]"
  by (simp add: save_trend_def)

text \<open>
  C8. \<open>process_trends\<close> raises nothing, returns one record per incoming trend and
  appends one row per trend to the table. Every returned record carries an engagement
  score, the one stored in its row. Where the incoming record had none, the stored
  engagement score equals the stored volume, so the row's ranking score, volume plus
  engagement, is twice its volume.
\<close>

theorem process_trends_engagement:
  "\<exists>out rows. process_trends generate_content clock db trends = Inr (out, db @ rows) \<and>
     length out = length trends \<and> length rows = length trends \<and>
     (\<forall>i < length trends.
        engagement_score (out ! i) = Some (r_engagement_score (rows ! i)) \<and>
        r_keyword (rows ! i) = keyword (trends ! i) \<and>
        r_platform (rows ! i) = platform (trends ! i) \<and>
        r_volume (rows ! i) = (case volume (trends ! i) of None \<Rightarrow> 0 | Some v \<Rightarrow> v) \<and>
        (engagement_score (trends ! i) = None \<longrightarrow>
           r_engagement_score (rows ! i) = of_int (r_volume (rows ! i)) \<and>
           combined (rows ! i) = 2 * of_int (r_volume (rows ! i))))"
proof (induction trends arbitrary: db)
  case Nil
  then show ?case by simp
next
  case (Cons trend rest)
  let ?P = "\<lambda>t r tr. engagement_score t = Some (r_engagement_score r) \<and>
        r_keyword r = keyword tr \<and> r_platform r = platform tr \<and>
        r_volume r = (case volume tr of None \<Rightarrow> 0 | Some v \<Rightarrow> v) \<and>
        (engagement_score tr = None \<longrightarrow>
           r_engagement_score r = of_int (r_volume r) \<and>
           combined r = 2 * of_int (r_volume r))"
  from process_trend_returns[of generate_content trend] obtain t where
    t: "process_trend generate_content trend = Inr t" "keyword t = keyword trend"
       "platform t = platform trend" "volume t = volume trend"
       "engagement_score t =
         (case engagement_score trend of
            None \<Rightarrow> Some (of_int (case volume trend of None \<Rightarrow> 0 | Some v \<Rightarrow> v))
          | Some e \<Rightarrow> Some e)" by blast
  obtain r where r: "save_trend (clock (length db)) db t = db @ [r]"
    using save_trend_append by blast
  note rr = save_trend_row[OF r]
  have p0: "?P t r trend"
    using rr t by (cases "engagement_score trend") (auto simp: combined_def)
  from Cons.IH[of "db @ [r]"] obtain out' rows' where
    ih: "process_trends generate_content clock (db @ [r]) rest = Inr (out', (db @ [r]) @ rows')"
        "length out' = length rest" "length rows' = length rest"
        "\<forall>i < length rest. ?P (out' ! i) (rows' ! i) (rest ! i)" by blast
  have run: "process_trends generate_content clock db (trend # rest) = Inr (t # out', db @ (r # rows'))"
    using t(1) r ih(1) by simp
  have all: "\<forall>i < length (trend # rest). ?P ((t # out') ! i) ((r # rows') ! i) ((trend # rest) ! i)"
  proof (intro allI impI)
    fix i assume "i < length (trend # rest)"
    then show "?P ((t # out') ! i) ((r # rows') ! i) ((trend # rest) ! i)"
      using p0 ih(4) by (cases i) auto
  qed
  have "process_trends generate_content clock db (trend # rest) = Inr (t # out', db @ (r # rows')) \<and>
     length (t # out') = length (trend # rest) \<and> length (r # rows') = length (trend # rest) \<and>
     (\<forall>i < length (trend # rest). ?P ((t # out') ! i) ((r # rows') ! i) ((trend # rest) ! i))"
    using run ih(2,3) all by simp
  then show ?case by blast
qed

theorem process_trends_engagement_witness:
  "\<exists>out r. process_trends (\<lambda>p. Inl (ServiceError ''offline'')) (\<lambda>n. \<lparr>ts_year = 2026, ts_month = 11, ts_day = 4, secs = n\<rparr>) []
       [\<lparr>keyword = ''SEO'', platform = ''Google Trends'', category = None, volume = Some 42,
         sentiment_score = None, engagement_score = None, metadata = []\<rparr>] = Inr (out, [r]) \<and>
     r_volume r = 42 \<and> r_engagement_score r = 42 \<and> combined r = 84"
proof -
  let ?g = "\<lambda>p :: string. (Inl (ServiceError ''offline'') :: py_error + response)"
  let ?c = "\<lambda>n. \<lparr>ts_year = 2026, ts_month = 11, ts_day = 4, secs = n\<rparr>"
  let ?t = "\<lparr>keyword = ''SEO'', platform = ''Google Trends'', category = None, volume = Some 42,
         sentiment_score = None, engagement_score = None, metadata = []\<rparr>"
  from process_trends_engagement[of ?g ?c "[]" "[?t]"] obtain out rows where
    h: "process_trends ?g ?c [] [?t] = Inr (out, rows)" "length rows = 1"
       "r_volume (rows ! 0) = 42"
       "r_engagement_score (rows ! 0) = of_int (r_volume (rows ! 0))"
       "combined (rows ! 0) = 2 * of_int (r_volume (rows ! 0))" by auto
  from h(2) obtain r where r: "rows = [r]" by (cases rows) auto
  with h show ?thesis by auto
qed

section \<open>Properties of the summary\<close>

lemma spec_keyword_data_unseen:
  "k \<notin> r_keyword ` set seen \<Longrightarrow> spec_keyword_data k seen = new_keyword_data k"
proof -
  assume "k \<notin> r_keyword ` set seen"
  then have "filter (\<lambda>t. r_keyword t = k) seen = []" by (auto simp: filter_empty_conv)
  then show ?thesis by (simp add: spec_keyword_data_def new_keyword_data_def)
qed

lemma spec_keyword_data_snoc:
  "spec_keyword_data k (seen @ [t]) =
     (if r_keyword t = k then accumulate t (spec_keyword_data k seen) else spec_keyword_data k seen)"
  by (simp add: spec_keyword_data_def accumulate_def Let_def)

lemma add_trend_keys:
  "fst ` set (add_trend kd t) = insert (r_keyword t) (fst ` set kd)"
proof (cases "map_of kd (r_keyword t)")
  case None
  then show ?thesis by (simp add: add_trend_def Let_def AList.dom_map_entry AList.dom_update)
next
  case (Some d)
  then have "(r_keyword t, d) \<in> set kd" by (rule map_of_SomeD)
  then have "r_keyword t \<in> fst ` set kd" by force
  then show ?thesis using Some
    by (auto simp: add_trend_def Let_def AList.dom_map_entry)
qed

lemma add_trend_distinct:
  "distinct (map fst kd) \<Longrightarrow> distinct (map fst (add_trend kd t))"
  by (simp add: add_trend_def Let_def AList.distinct_map_entry AList.distinct_update)

lemma add_trend_map_of:
  "map_of (add_trend kd t) =
     (map_of kd)(r_keyword t \<mapsto>
        accumulate t (case map_of kd (r_keyword t) of None \<Rightarrow> new_keyword_data (r_keyword t) | Some d \<Rightarrow> d))"
  by (auto simp: add_trend_def Let_def AList.map_of_map_entry AList.update_conv' split: option.splits)

lemma foldl_add_trend:
  "distinct (map fst (foldl add_trend [] trends)) \<and>
   fst ` set (foldl add_trend [] trends) = r_keyword ` set trends \<and>
   (\<forall>k \<in> r_keyword ` set trends.
      map_of (foldl add_trend [] trends) k = Some (spec_keyword_data k trends))"
proof (induction trends rule: rev_induct)
  case Nil
  then show ?case by simp
next
  case (snoc t seen)
  let ?kd = "foldl add_trend [] seen"
  have d: "distinct (map fst (add_trend ?kd t))" using snoc by (simp add: add_trend_distinct)
  have k: "fst ` set (add_trend ?kd t) = r_keyword ` set (seen @ [t])"
    using snoc by (simp add: add_trend_keys)
  have none: "r_keyword t \<notin> r_keyword ` set seen \<Longrightarrow> map_of ?kd (r_keyword t) = None"
    using snoc by (metis map_of_eq_None_iff)
  have m: "\<forall>k \<in> r_keyword ` set (seen @ [t]).
      map_of (add_trend ?kd t) k = Some (spec_keyword_data k (seen @ [t]))"
  proof
    fix k assume kin: "k \<in> r_keyword ` set (seen @ [t])"
    show "map_of (add_trend ?kd t) k = Some (spec_keyword_data k (seen @ [t]))"
    proof (cases "r_keyword t = k")
      case True
      show ?thesis
      proof (cases "k \<in> r_keyword ` set seen")
        case True
        then have "map_of ?kd k = Some (spec_keyword_data k seen)" using snoc by blast
        then show ?thesis using \<open>r_keyword t = k\<close>
          by (simp add: add_trend_map_of spec_keyword_data_snoc)
      next
        case False
        then have "map_of ?kd k = None" using none \<open>r_keyword t = k\<close> by simp
        then show ?thesis using \<open>r_keyword t = k\<close> False
          by (simp add: add_trend_map_of spec_keyword_data_snoc spec_keyword_data_unseen)
      qed
    next
      case False
      then have "k \<in> r_keyword ` set seen" using kin by auto
      then have "map_of ?kd k = Some (spec_keyword_data k seen)" using snoc by blast
      then show ?thesis using False by (simp add: add_trend_map_of spec_keyword_data_snoc)
    qed
  qed
  show ?case using d k m by simp
qed

lemma foldl_add_trend_entries:
  "(k, d) \<in> set (foldl add_trend [] trends) \<Longrightarrow>
     k \<in> r_keyword ` set trends \<and> d = spec_keyword_data k trends"
proof -
  assume e: "(k, d) \<in> set (foldl add_trend [] trends)"
  have dist: "distinct (map fst (foldl add_trend [] trends))" using foldl_add_trend by blast
  have kin: "k \<in> r_keyword ` set trends" using e foldl_add_trend[of trends] by force
  have "map_of (foldl add_trend [] trends) k = Some d" using e dist by simp
  moreover have "map_of (foldl add_trend [] trends) k = Some (spec_keyword_data k trends)"
    using kin foldl_add_trend by blast
  ultimately show ?thesis using kin by simp
qed

lemma summary_keywords:
  "map s_keyword (map (\<lambda>(k, d). summarise d) (foldl add_trend [] trends)) =
     map fst (foldl add_trend [] trends)"
proof -
  have "\<forall>p \<in> set (foldl add_trend [] trends). s_keyword (summarise (snd p)) = fst p"
  proof
    fix p assume "p \<in> set (foldl add_trend [] trends)"
    then have "(fst p, snd p) \<in> set (foldl add_trend [] trends)" by simp
    from foldl_add_trend_entries[OF this] show "s_keyword (summarise (snd p)) = fst p"
      by (simp add: summarise_def spec_keyword_data_def Let_def)
  qed
  then show ?thesis by (auto simp: case_prod_beta)
qed

text \<open>
  C3. Let \<open>trends\<close> be the observations read from the trailing window of seven days and
  \<open>top_n\<close> be non-negative. \<open>get_current_trends_summary\<close> returns the first \<open>top_n\<close>
  rows of a list that is sorted by descending combined score and has exactly one row per
  distinct keyword of \<open>trends\<close>; in each row the total volume and total engagement are
  the sums over the observations of its keyword, the average sentiment is the mean of
  their sentiment scores, the occurrences are their number, the platforms and categories
  are the sets of their values, and the combined score is total volume plus total
  engagement.
\<close>

theorem trends_summary_rows:
  assumes "get_historical_trends now 7 db = Inr trends" and "0 \<le> top_n"
  shows "\<exists>rows. get_current_trends_summary now top_n db = Inr (take (nat top_n) rows) \<and>
     sorted_wrt (\<lambda>a b. combined_score b \<le> combined_score a) rows \<and>
     distinct (map s_keyword rows) \<and>
     set (map s_keyword rows) = r_keyword ` set trends \<and>
     (\<forall>s \<in> set rows.
        total_volume s = sum_list (map r_volume (filter (\<lambda>t. r_keyword t = s_keyword s) trends)) \<and>
        total_engagement s =
          sum_list (map r_engagement_score (filter (\<lambda>t. r_keyword t = s_keyword s) trends)) \<and>
        avg_sentiment s =
          sum_list (map r_sentiment_score (filter (\<lambda>t. r_keyword t = s_keyword s) trends))
            / of_nat (length (filter (\<lambda>t. r_keyword t = s_keyword s) trends)) \<and>
        occurrences s = length (filter (\<lambda>t. r_keyword t = s_keyword s) trends) \<and>
        0 < occurrences s \<and>
        platforms s = r_platform ` set (filter (\<lambda>t. r_keyword t = s_keyword s) trends) \<and>
        categories s = r_category ` set (filter (\<lambda>t. r_keyword t = s_keyword s) trends) \<and>
        combined_score s = of_int (total_volume s) + total_engagement s)"
proof -
  let ?kd = "foldl add_trend [] trends"
  let ?sum = "map (\<lambda>(k, d). summarise d) ?kd"
  let ?rows = "sort_key (\<lambda>s. - combined_score s) ?sum"
  have res: "get_current_trends_summary now top_n db = Inr (take (nat top_n) ?rows)"
    using assms by (simp add: get_current_trends_summary_def trends_summary_def py_slice_to_def)
  have "sorted (map (\<lambda>s. - combined_score s) ?rows)" by (rule sorted_sort_key)
  then have srt: "sorted_wrt (\<lambda>a b. combined_score b \<le> combined_score a) ?rows"
    by (simp add: sorted_map)
  have ms: "mset (map s_keyword ?rows) = mset (map fst ?kd)"
    using summary_keywords[of trends] by (metis mset_map mset_sort)
  have dk: "distinct (map fst ?kd)" using foldl_add_trend by blast
  have dist: "distinct (map s_keyword ?rows)"
    using ms dk by (metis mset_eq_imp_distinct_iff)
  have "set (map s_keyword ?rows) = set (map fst ?kd)" using ms by (metis set_mset_mset)
  then have keys: "set (map s_keyword ?rows) = r_keyword ` set trends"
    using foldl_add_trend[of trends] by simp
  have fields: "\<forall>s \<in> set ?rows.
        total_volume s = sum_list (map r_volume (filter (\<lambda>t. r_keyword t = s_keyword s) trends)) \<and>
        total_engagement s =
          sum_list (map r_engagement_score (filter (\<lambda>t. r_keyword t = s_keyword s) trends)) \<and>
        avg_sentiment s =
          sum_list (map r_sentiment_score (filter (\<lambda>t. r_keyword t = s_keyword s) trends))
            / of_nat (length (filter (\<lambda>t. r_keyword t = s_keyword s) trends)) \<and>
        occurrences s = length (filter (\<lambda>t. r_keyword t = s_keyword s) trends) \<and>
        0 < occurrences s \<and>
        platforms s = r_platform ` set (filter (\<lambda>t. r_keyword t = s_keyword s) trends) \<and>
        categories s = r_category ` set (filter (\<lambda>t. r_keyword t = s_keyword s) trends) \<and>
        combined_score s = of_int (total_volume s) + total_engagement s"
  proof
    fix s assume "s \<in> set ?rows"
    then have "s \<in> set ?sum" by simp
    then obtain k d where kd: "(k, d) \<in> set ?kd" and s: "s = summarise d" by auto
    from foldl_add_trend_entries[OF kd] have kin: "k \<in> r_keyword ` set trends"
      and d: "d = spec_keyword_data k trends" by auto
    have sk: "s_keyword s = k" using s d by (simp add: summarise_def spec_keyword_data_def Let_def)
    have ne: "filter (\<lambda>t. r_keyword t = k) trends \<noteq> []"
      using kin by (auto simp: filter_empty_conv)
    show "total_volume s = sum_list (map r_volume (filter (\<lambda>t. r_keyword t = s_keyword s) trends)) \<and>
        total_engagement s =
          sum_list (map r_engagement_score (filter (\<lambda>t. r_keyword t = s_keyword s) trends)) \<and>
        avg_sentiment s =
          sum_list (map r_sentiment_score (filter (\<lambda>t. r_keyword t = s_keyword s) trends))
            / of_nat (length (filter (\<lambda>t. r_keyword t = s_keyword s) trends)) \<and>
        occurrences s = length (filter (\<lambda>t. r_keyword t = s_keyword s) trends) \<and>
        0 < occurrences s \<and>
        platforms s = r_platform ` set (filter (\<lambda>t. r_keyword t = s_keyword s) trends) \<and>
        categories s = r_category ` set (filter (\<lambda>t. r_keyword t = s_keyword s) trends) \<and>
        combined_score s = of_int (total_volume s) + total_engagement s"
      unfolding sk using ne by (simp add: s d summarise_def spec_keyword_data_def Let_def)
  qed
  show ?thesis
    apply (rule exI[of _ ?rows])
    using res srt dist keys fields apply (intro conjI)
    apply assumption+
    done
qed

theorem trends_summary_rows_witness:
  "\<exists>s. get_current_trends_summary \<lparr>ts_year = 2026, ts_month = 11, ts_day = 4, secs = 100\<rparr> 20 [\<lparr>r_keyword = ''A'', r_platform = ''platform1'', r_category = ''General Marketing'', r_volume = 10,
       r_sentiment_score = 1 / 2, r_engagement_score = 5,
       r_timestamp = \<lparr>ts_year = 2026, ts_month = 11, ts_day = 4, secs = 0\<rparr>, r_metadata = []\<rparr>, \<lparr>r_keyword = ''A'', r_platform = ''platform2'', r_category = ''General Marketing'', r_volume = 3,
       r_sentiment_score = 0, r_engagement_score = 1,
       r_timestamp = \<lparr>ts_year = 2026, ts_month = 11, ts_day = 3, secs = 0\<rparr>, r_metadata = []\<rparr>] = Inr [s] \<and>
     s_keyword s = ''A'' \<and> total_volume s = 13 \<and> total_engagement s = 6 \<and> occurrences s = 2 \<and>
     platforms s = {''platform1'', ''platform2''} \<and> combined_score s = 19"
proof -
  define db where "db = [\<lparr>r_keyword = ''A'', r_platform = ''platform1'', r_category = ''General Marketing'', r_volume = 10,
       r_sentiment_score = 1 / 2, r_engagement_score = 5,
       r_timestamp = \<lparr>ts_year = 2026, ts_month = 11, ts_day = 4, secs = 0\<rparr>, r_metadata = []\<rparr>, \<lparr>r_keyword = ''A'', r_platform = ''platform2'', r_category = ''General Marketing'', r_volume = 3,
       r_sentiment_score = 0, r_engagement_score = 1,
       r_timestamp = \<lparr>ts_year = 2026, ts_month = 11, ts_day = 3, secs = 0\<rparr>, r_metadata = []\<rparr>]"
  define now where "now = \<lparr>ts_year = 2026, ts_month = 11, ts_day = 4, secs = 100\<rparr>"
  have d: "date_threshold now 7 = Inr ''2026-10-28''"
    by (simp add: now_def date_threshold_def threshold_datetime_def ymd2ord_2026_11_4
        ord2ymd_739917 strftime_date_def digits_of_2026 pad_digits_2 digit_chars)
  have g: "get_historical_trends now 7 db = Inr db"
    using d by (simp add: get_historical_trends_def ts_key_def db_def sqlite_date_def
        pad_digits_2 pad_digits_4 digit_chars)
  have fa: "filter (\<lambda>t. r_keyword t = ''A'') db = db" by (simp add: db_def)
  have ka: "r_keyword ` set db = {''A''}" by (simp add: db_def)
  have z: "(0::int) \<le> 20" by simp
  from trends_summary_rows[OF g z] obtain rows where
    r1: "get_current_trends_summary now 20 db = Inr (take (nat 20) rows)"
    and r2: "distinct (map s_keyword rows)"
    and r3: "set (map s_keyword rows) = r_keyword ` set db"
    and f: "\<forall>s \<in> set rows.
        total_volume s = sum_list (map r_volume (filter (\<lambda>t. r_keyword t = s_keyword s) db)) \<and>
        total_engagement s =
          sum_list (map r_engagement_score (filter (\<lambda>t. r_keyword t = s_keyword s) db)) \<and>
        avg_sentiment s =
          sum_list (map r_sentiment_score (filter (\<lambda>t. r_keyword t = s_keyword s) db))
            / of_nat (length (filter (\<lambda>t. r_keyword t = s_keyword s) db)) \<and>
        occurrences s = length (filter (\<lambda>t. r_keyword t = s_keyword s) db) \<and>
        0 < occurrences s \<and>
        platforms s = r_platform ` set (filter (\<lambda>t. r_keyword t = s_keyword s) db) \<and>
        categories s = r_category ` set (filter (\<lambda>t. r_keyword t = s_keyword s) db) \<and>
        combined_score s = of_int (total_volume s) + total_engagement s"
    by blast
  have ks: "set (map s_keyword rows) = {''A''}" using r3 ka by simp
  have "length (map s_keyword rows) = card (set (map s_keyword rows))"
    using r2 by (simp only: distinct_card)
  then have "length rows = 1" using ks by simp
  then obtain s where rows: "rows = [s]" by (cases rows) auto
  have sk: "s_keyword s = ''A''" using ks rows by simp
  have sin: "s \<in> set rows" using rows by simp
  note fs = f[rule_format, OF sin, unfolded sk fa]
  have tv: "total_volume s = 13" using fs by (simp add: db_def)
  have te: "total_engagement s = 6" using fs by (simp add: db_def)
  have oc: "occurrences s = 2" using fs by (simp add: db_def)
  have pl: "platforms s = {''platform1'', ''platform2''}" using fs by (simp add: db_def)
  have cs: "combined_score s = 19" using fs tv te by simp
  have "get_current_trends_summary now 20 db = Inr [s]" using r1 rows by simp
  with sk tv te oc pl cs show ?thesis unfolding db_def now_def by blast
qed

section \<open>The menu prompts and the exported file at failing inputs\<close>

lemma read_number_default: "\<not> isdigit (strip line) \<Longrightarrow> read_number d line = Inr d"
  by (simp add: read_number_def)

lemma read_number_decimal:
  "strip line \<noteq> [] \<Longrightarrow> list_all is_decimal (strip line) \<Longrightarrow>
     read_number d line = Inr (int (decimal_value (strip line)))"
  by (auto simp: read_number_def py_int_def isdigit_def isdigit_char_def list_all_iff)

lemma two_numbers_default:
  "\<not> isdigit (strip l1) \<Longrightarrow> \<not> isdigit (strip l2) \<Longrightarrow>
     two_numbers call d1 d2 (l1 # l2 # rest) = Inr (call d1 d2, rest)"
  by (simp add: two_numbers_def read_number_default)

text \<open>
  C7 (the code at a failing input). The line holding the superscript two, U+00B2, is
  not a valid number, yet \<open>isdigit\<close> accepts it and \<open>int\<close> raises \<open>ValueError\<close>: the
  purge, export, view-recent and top-keywords prompts raise instead of taking their
  default, whereas an input such as \<open>abc\<close> takes the default.
\<close>

theorem menu_superscript_digit_raises:
  "isdigit (strip [CHR 0xB2]) \<and>
   read_number 90 [CHR 0xB2] = Inl ValueError \<and>
   menu_choice [''6'', [CHR 0xB2], ''yes''] = Inl ValueError \<and>
   menu_choice [''5'', ''out.csv'', [CHR 0xB2]] = Inl ValueError \<and>
   menu_choice [''1'', [CHR 0xB2], ''50''] = Inl ValueError \<and>
   menu_choice [''4'', ''7'', [CHR 0xB2]] = Inl ValueError \<and>
   menu_choice [''6'', ''abc'', ''yes''] = Inr (ClearOldData 90, [''yes''])"
  by code_simp

text \<open>
  C5 (the code at a failing input). A keyword that holds double quotes is written
  between double quotes unchanged; read back, the exported record does not give the
  keyword again.
\<close>

theorem export_to_csv_quoted_keyword_misread:
  "export_to_csv (\<lambda>x. ''0.5'') (\<lambda>t. ''2026-11-03 10:00:00'') \<lparr>ts_year = 2026, ts_month = 11, ts_day = 4, secs = 100\<rparr> 30 [\<lparr>r_keyword = ''Why '' @ [CHR 0x22] @ ''SEO'' @ [CHR 0x22] @ '' is dead'', r_platform = ''Reddit'',
        r_category = ''SEO & SEM'', r_volume = 12, r_sentiment_score = 1 / 2,
        r_engagement_score = 1 / 2, r_timestamp = \<lparr>ts_year = 2026, ts_month = 11, ts_day = 3, secs = 36000\<rparr>,
        r_metadata = []\<rparr>]
     = Inr (csv_header @
         [CHR 0x22] @ ''Why '' @ [CHR 0x22] @ ''SEO'' @ [CHR 0x22] @ '' is dead'' @ [CHR 0x22] @ '',Reddit,SEO & SEM,12,0.5,0.5,2026-11-03 10:00:00'' @ [CHR 0x0A]) \<and>
   csv_reader (csv_header @
         [CHR 0x22] @ ''Why '' @ [CHR 0x22] @ ''SEO'' @ [CHR 0x22] @ '' is dead'' @ [CHR 0x22] @ '',Reddit,SEO & SEM,12,0.5,0.5,2026-11-03 10:00:00'' @ [CHR 0x0A])
     = [[''Keyword'', ''Platform'', ''Category'', ''Volume'', ''Sentiment Score'',
         ''Engagement Score'', ''Timestamp''],
        [''Why SEO'' @ [CHR 0x22] @ '' is dead'' @ [CHR 0x22], ''Reddit'', ''SEO & SEM'', ''12'',
         ''0.5'', ''0.5'', ''2026-11-03 10:00:00'']] \<and>
   ''Why SEO'' @ [CHR 0x22] @ '' is dead'' @ [CHR 0x22] \<noteq> replace_commas (''Why '' @ [CHR 0x22] @ ''SEO'' @ [CHR 0x22] @ '' is dead'')"
proof -
  have n: "py_str_int 12 = ''12''" by code_simp
  have d: "date_threshold \<lparr>ts_year = 2026, ts_month = 11, ts_day = 4, secs = 100\<rparr> 30 = Inr ''2026-10-05''"
    by (simp add: date_threshold_def threshold_datetime_def ymd2ord_2026_11_4 ord2ymd_739894
        strftime_date_def digits_of_2026 pad_digits_2 digit_chars)
  have sd: "sqlite_date \<lparr>ts_year = 2026, ts_month = 11, ts_day = 3, secs = 36000\<rparr> = ''2026-11-03''"
    by (simp add: sqlite_date_def pad_digits_2 pad_digits_4 digit_chars)
  have e: "export_to_csv (\<lambda>x. ''0.5'') (\<lambda>t. ''2026-11-03 10:00:00'') \<lparr>ts_year = 2026, ts_month = 11, ts_day = 4, secs = 100\<rparr> 30 [\<lparr>r_keyword = ''Why '' @ [CHR 0x22] @ ''SEO'' @ [CHR 0x22] @ '' is dead'', r_platform = ''Reddit'',
        r_category = ''SEO & SEM'', r_volume = 12, r_sentiment_score = 1 / 2,
        r_engagement_score = 1 / 2, r_timestamp = \<lparr>ts_year = 2026, ts_month = 11, ts_day = 3, secs = 36000\<rparr>,
        r_metadata = []\<rparr>]
     = Inr (csv_header @
         [CHR 0x22] @ ''Why '' @ [CHR 0x22] @ ''SEO'' @ [CHR 0x22] @ '' is dead'' @ [CHR 0x22] @ '',Reddit,SEO & SEM,12,0.5,0.5,2026-11-03 10:00:00'' @ [CHR 0x0A])"
    using d n sd by (simp add: export_to_csv_def export_rows_def csv_text_def csv_line_def
        replace_commas_def)
  have r: "csv_reader (csv_header @
         [CHR 0x22] @ ''Why '' @ [CHR 0x22] @ ''SEO'' @ [CHR 0x22] @ '' is dead'' @ [CHR 0x22] @ '',Reddit,SEO & SEM,12,0.5,0.5,2026-11-03 10:00:00'' @ [CHR 0x0A])
     = [[''Keyword'', ''Platform'', ''Category'', ''Volume'', ''Sentiment Score'',
         ''Engagement Score'', ''Timestamp''],
        [''Why SEO'' @ [CHR 0x22] @ '' is dead'' @ [CHR 0x22], ''Reddit'', ''SEO & SEM'', ''12'',
         ''0.5'', ''0.5'', ''2026-11-03 10:00:00'']]"
    by (simp add: csv_reader_def csv_header_def)
  have q: "''Why SEO'' @ [CHR 0x22] @ '' is dead'' @ [CHR 0x22] \<noteq> replace_commas (''Why '' @ [CHR 0x22] @ ''SEO'' @ [CHR 0x22] @ '' is dead'')"
    by (simp add: replace_commas_def)
  from e r q show ?thesis by (intro conjI)
qed

end
